theory Spec2Isabelle
  imports Complex_Main
begin

section \<open>Data model (src/types.ts and the state of App in src/App.tsx)\<close>

text \<open>
  The component \<open>App\<close> keeps React state (\<open>useState\<close>) and mutable references
  (\<open>useRef\<close>). Both are fields of one record; a handler of the component is a function
  from the record to the updated record. JavaScript runs every handler to completion on one
  thread, so a handler is one atomic step. \<open>startAISession\<close> is cut at
  \<open>await sessionPromise\<close>, where the callbacks of the connection and clicks come in
  between, and can be cut at the await of \<open>getUserMedia\<close> as well. The awaits of
  \<open>resume()\<close> and the await of the decoder in \<open>onmessage\<close> are run through in
  one step.

  Objects of the browser (streams, sessions, audio contexts, buffer source nodes, interval
  timers) are handles, natural numbers; \<open>null\<close> is \<open>None\<close>. What a handler does to
  such an object (closing, stopping, starting, sending) is appended to a log field of the record,
  so that a theorem can speak about it. JavaScript numbers that carry time or coordinates are
  exact reals here.

  Left out are the view mode, the video and canvas elements, and the two callbacks that only
  send media (the microphone processor and the frame timer's tick): no handler below reads
  what they write.
\<close>

datatype SessionStatus = IDLE | CONNECTING | ACTIVE | ERROR

datatype Sender = user | model

record TranscriptionPart =
  tp_text :: string
  tp_sender :: Sender
  tp_timestamp :: nat

record ClickAction =
  click_x :: real
  click_y :: real
  click_label :: string
  click_id :: string

type_synonym handle = nat

text \<open>The arguments of the declared tool \<open>click_answer\<close> (\<open>clickAnswerDeclaration\<close>).\<close>

record ClickArgs =
  arg_x :: real
  arg_y :: real
  arg_label :: string

text \<open>One entry of \<open>message.toolCall.functionCalls\<close>.\<close>

record FunctionCall =
  fc_id :: string
  fc_name :: string
  fc_args :: ClickArgs

text \<open>
  One entry of \<open>functionResponses\<close> as passed to \<open>sendToolResponse\<close>; the object
  \<open>{ result: "ok" }\<close> is the list of its key and value.
\<close>

record FunctionResponse =
  fr_id :: string
  fr_name :: string
  fr_response :: "(string \<times> string) list"

text \<open>
  The decoded buffer that \<open>decodeAudioData\<close> returns. Its \<open>duration\<close> is the number
  of sample frames over the sample rate, as the Web Audio interface defines it.
\<close>

record AudioBuffer =
  ab_length :: nat
  ab_sampleRate :: nat

definition duration :: "AudioBuffer \<Rightarrow> real" where
  "duration b = real (ab_length b) / real (ab_sampleRate b)"

definition AUDIO_SAMPLE_RATE :: nat where
  "AUDIO_SAMPLE_RATE = 24000"

record app_state =
  status :: SessionStatus
  error :: "string option"
  transcriptions :: "TranscriptionPart list"
  isScreenShared :: bool
  clicks :: "ClickAction list"
  isAiSpeaking :: bool
  isCapturing :: bool
  screenStreamRef :: "handle option"
  micStreamRef :: "handle option"
  activeSessionRef :: "handle option"
  audioContextRef :: "handle option"
  outputAudioContextRef :: "handle option"
  nextStartTimeRef :: real
  sourcesRef :: "handle list"
  frameIntervalRef :: "handle option"
  clearedIntervals :: "handle list"
  closedSessions :: "handle list"
  stoppedStreams :: "handle list"
  stoppedSources :: "handle list"
  startedSources :: "(handle \<times> real \<times> real) list"
  sentToolResponses :: "FunctionResponse list"
  markerTimeouts :: "(string \<times> nat) list"
  nextSourceId :: nat
  nextTimerId :: nat

text \<open>
  The state of a freshly mounted component: the initial values of every \<open>useState\<close> and
  \<open>useRef\<close>, empty logs.
\<close>

definition initial :: app_state where
  "initial = \<lparr> status = IDLE, error = None, transcriptions = [], isScreenShared = False,
     clicks = [], isAiSpeaking = False, isCapturing = False, screenStreamRef = None,
     micStreamRef = None, activeSessionRef = None, audioContextRef = None,
     outputAudioContextRef = None, nextStartTimeRef = 0, sourcesRef = [],
     frameIntervalRef = None, clearedIntervals = [], closedSessions = [],
     stoppedStreams = [], stoppedSources = [], startedSources = [],
     sentToolResponses = [], markerTimeouts = [], nextSourceId = 0, nextTimerId = 1 \<rparr>"

section \<open>Transcript window (addTranscription)\<close>

text \<open>
  \<open>prev.slice(-n)\<close> of JavaScript: the last \<open>n\<close> elements, the whole array when it
  is shorter.
\<close>

definition slice_last :: "nat \<Rightarrow> 'a list \<Rightarrow> 'a list" where
  "slice_last n xs = drop (length xs - n) xs"

text \<open>
  \<open>setTranscriptions(prev => [...prev.slice(-20), { text, sender, timestamp: Date.now() }])\<close>;
  the reading of \<open>Date.now()\<close> is the argument \<open>now\<close>.
\<close>

definition addTranscription :: "nat \<Rightarrow> string \<Rightarrow> Sender \<Rightarrow> app_state \<Rightarrow> app_state" where
  "addTranscription now txt who s =
     s\<lparr>transcriptions := slice_last 20 (transcriptions s) @
          [\<lparr>tp_text = txt, tp_sender = who, tp_timestamp = now\<rparr>]\<rparr>"

text \<open>Appending a sequence of entries, each given by its text, sender and time stamp.\<close>

definition entry :: "string \<times> Sender \<times> nat \<Rightarrow> TranscriptionPart" where
  "entry e = \<lparr>tp_text = fst e, tp_sender = fst (snd e), tp_timestamp = snd (snd e)\<rparr>"

fun addAll :: "(string \<times> Sender \<times> nat) list \<Rightarrow> app_state \<Rightarrow> app_state" where
  "addAll [] s = s"
| "addAll (e # es) s = addAll es (addTranscription (snd (snd e)) (fst e) (fst (snd e)) s)"

text \<open>The first \<open>n\<close> of a sequence of numbered entries, for concrete runs.\<close>

definition numbered :: "nat \<Rightarrow> (string \<times> Sender \<times> nat) list" where
  "numbered n = map (\<lambda>i. (''t'', model, i)) [0..<n]"

section \<open>Teardown (handleStop)\<close>

text \<open>
  Each of the four guarded blocks of \<open>handleStop\<close>: the \<open>if (ref.current)\<close> is the
  case distinction, the call on the handle is logged, the reference is set to \<open>null\<close>.
  Timer identifiers of \<open>setInterval\<close> are positive, so a stored one is truthy.
\<close>

definition clearFrameInterval :: "app_state \<Rightarrow> app_state" where
  "clearFrameInterval s =
     (case frameIntervalRef s of
        None \<Rightarrow> s
      | Some t \<Rightarrow> s\<lparr>clearedIntervals := clearedIntervals s @ [t], frameIntervalRef := None\<rparr>)"

definition closeActiveSession :: "app_state \<Rightarrow> app_state" where
  "closeActiveSession s =
     (case activeSessionRef s of
        None \<Rightarrow> s
      | Some h \<Rightarrow> s\<lparr>closedSessions := closedSessions s @ [h], activeSessionRef := None\<rparr>)"

definition stopScreenStream :: "app_state \<Rightarrow> app_state" where
  "stopScreenStream s =
     (case screenStreamRef s of
        None \<Rightarrow> s
      | Some h \<Rightarrow> s\<lparr>stoppedStreams := stoppedStreams s @ [h], screenStreamRef := None\<rparr>)"

definition stopMicStream :: "app_state \<Rightarrow> app_state" where
  "stopMicStream s =
     (case micStreamRef s of
        None \<Rightarrow> s
      | Some h \<Rightarrow> s\<lparr>stoppedStreams := stoppedStreams s @ [h], micStreamRef := None\<rparr>)"

text \<open>
  \<open>sourcesRef.current.forEach(s => { try { s.stop(); } catch (e) {} }); sourcesRef.current.clear()\<close>:
  every node of the set gets its \<open>stop()\<close> call, in insertion order; what a call throws is
  swallowed by the \<open>catch\<close>, so the block has no error exit.
\<close>

definition stopAllSources :: "app_state \<Rightarrow> app_state" where
  "stopAllSources s = s\<lparr>stoppedSources := stoppedSources s @ sourcesRef s, sourcesRef := []\<rparr>"

definition handleStop :: "app_state \<Rightarrow> app_state" where
  "handleStop s =
     (stopAllSources (stopMicStream (stopScreenStream (closeActiveSession (clearFrameInterval s)))))
       \<lparr>status := IDLE, isScreenShared := False, isAiSpeaking := False, isCapturing := False,
        nextStartTimeRef := 0\<rparr>"

section \<open>Handlers that can throw\<close>

text \<open>
  A handler that can throw ends either normally or with the thrown message; the state it has
  written up to the throw stays written.
\<close>

datatype outcome = Done app_state | Threw string app_state

fun state_of :: "outcome \<Rightarrow> app_state" where
  "state_of (Done s) = s"
| "state_of (Threw e s) = s"

fun completes :: "outcome \<Rightarrow> bool" where
  "completes (Done s) = True"
| "completes (Threw e s) = False"

fun andThen :: "outcome \<Rightarrow> (app_state \<Rightarrow> outcome) \<Rightarrow> outcome" where
  "andThen (Done s) f = f s"
| "andThen (Threw e s) f = Threw e s"

section \<open>Starting (startScreenShare, startAISession)\<close>

text \<open>The argument is what \<open>getDisplayMedia\<close> answers: an error or the stream.\<close>

definition startScreenShare :: "string + handle \<Rightarrow> app_state \<Rightarrow> app_state" where
  "startScreenShare getDisplayMedia s =
     (case getDisplayMedia of
        Inl e \<Rightarrow>
          s\<lparr>error := Some ''Screen sharing denied or failed. Please allow access to your screen.''\<rparr>
      | Inr stream \<Rightarrow>
          s\<lparr>error := None, screenStreamRef := Some stream, isScreenShared := True\<rparr>)"

text \<open>
  What the environment answers during one call of \<open>startAISession\<close>:
  \<open>process.env.API_KEY\<close> (empty when absent), the two \<open>AudioContext\<close> constructors,
  the two \<open>resume()\<close> calls (\<open>None\<close> when the context is not suspended or resumes) and
  \<open>getUserMedia\<close>. An error is the \<open>message\<close> of the thrown value.
\<close>

record start_env =
  API_KEY :: string
  newOutputContext :: "string + handle"
  resumeOutputContext :: "string option"
  getUserMedia :: "string + handle"
  newInputContext :: "string + handle"
  resumeInputContext :: "string option"

definition acquireOutputContext :: "start_env \<Rightarrow> app_state \<Rightarrow> outcome" where
  "acquireOutputContext env s =
     andThen
       (case outputAudioContextRef s of
          Some c \<Rightarrow> Done s
        | None \<Rightarrow>
            (case newOutputContext env of
               Inl e \<Rightarrow> Threw e s
             | Inr c \<Rightarrow> Done (s\<lparr>outputAudioContextRef := Some c\<rparr>)))
       (\<lambda>s'. case resumeOutputContext env of Some e \<Rightarrow> Threw e s' | None \<Rightarrow> Done s')"

definition acquireMicrophone :: "start_env \<Rightarrow> app_state \<Rightarrow> outcome" where
  "acquireMicrophone env s =
     (case getUserMedia env of
        Inl e \<Rightarrow> Threw e s
      | Inr micStream \<Rightarrow> Done (s\<lparr>micStreamRef := Some micStream\<rparr>))"

definition acquireInputContext :: "start_env \<Rightarrow> app_state \<Rightarrow> outcome" where
  "acquireInputContext env s =
     andThen
       (case audioContextRef s of
          Some c \<Rightarrow> Done s
        | None \<Rightarrow>
            (case newInputContext env of
               Inl e \<Rightarrow> Threw e s
             | Inr c \<Rightarrow> Done (s\<lparr>audioContextRef := Some c\<rparr>)))
       (\<lambda>s'. case resumeInputContext env of Some e \<Rightarrow> Threw e s' | None \<Rightarrow> Done s')"

text \<open>
  The \<open>catch\<close> block of \<open>startAISession\<close>:
  \<open>setError(err.message || "Failed to start AI session."); setStatus(SessionStatus.IDLE)\<close>.
\<close>

definition catchStartError :: "string \<Rightarrow> app_state \<Rightarrow> app_state" where
  "catchStartError msg s =
     s\<lparr>error := Some (if msg = [] then ''Failed to start AI session.'' else msg),
       status := IDLE\<rparr>"

text \<open>
  \<open>startAISession\<close> up to the call of \<open>ai.live.connect\<close>. It has returned (the key is
  missing, or the \<open>catch\<close> block ran), or it is suspended at \<open>await sessionPromise\<close>.
\<close>

datatype start_result = Returned app_state | Awaiting app_state

fun result_state :: "start_result \<Rightarrow> app_state" where
  "result_state (Returned s) = s"
| "result_state (Awaiting s) = s"

definition startAISession_begin :: "start_env \<Rightarrow> app_state \<Rightarrow> start_result" where
  "startAISession_begin env s =
     (if API_KEY env = [] then
        Returned (s\<lparr>error := Some ''API Key is missing from the environment.''\<rparr>)
      else
        (case andThen (andThen (acquireOutputContext env (s\<lparr>status := CONNECTING, error := None\<rparr>))
                         (acquireMicrophone env))
                (acquireInputContext env) of
           Threw e s' \<Rightarrow> Returned (catchStartError e s')
         | Done s' \<Rightarrow> Awaiting s'))"

text \<open>
  The same in two steps, for a run in which an event arrives while \<open>getUserMedia\<close> is
  pending: \<open>startAISession\<close> up to the call of \<open>getUserMedia\<close>, and from the
  settling of that call to the call of \<open>ai.live.connect\<close>.
\<close>

definition startAISession_toMicrophone :: "start_env \<Rightarrow> app_state \<Rightarrow> start_result" where
  "startAISession_toMicrophone env s =
     (if API_KEY env = [] then
        Returned (s\<lparr>error := Some ''API Key is missing from the environment.''\<rparr>)
      else
        (case acquireOutputContext env (s\<lparr>status := CONNECTING, error := None\<rparr>) of
           Threw e s' \<Rightarrow> Returned (catchStartError e s')
         | Done s' \<Rightarrow> Awaiting s'))"

definition startAISession_fromMicrophone :: "start_env \<Rightarrow> app_state \<Rightarrow> start_result" where
  "startAISession_fromMicrophone env s =
     (case andThen (acquireMicrophone env s) (acquireInputContext env) of
        Threw e s' \<Rightarrow> Returned (catchStartError e s')
      | Done s' \<Rightarrow> Awaiting s')"

text \<open>
  The rest of \<open>startAISession\<close>, run when \<open>sessionPromise\<close> settles:
  \<open>activeSessionRef.current = await sessionPromise\<close>, or the \<open>catch\<close> block.
\<close>

definition startAISession_settle :: "string + handle \<Rightarrow> app_state \<Rightarrow> app_state" where
  "startAISession_settle sessionPromise s =
     (case sessionPromise of
        Inl e \<Rightarrow> catchStartError e s
      | Inr session \<Rightarrow> s\<lparr>activeSessionRef := Some session\<rparr>)"

section \<open>Callbacks of the live connection\<close>

text \<open>
  \<open>onopen\<close>: the two setters, the microphone graph on \<open>audioContextRef.current!\<close> (a null
  reference throws there), then \<open>setInterval\<close>, which returns a fresh timer.
\<close>

definition onopen :: "app_state \<Rightarrow> outcome" where
  "onopen s =
     (let s1 = s\<lparr>status := ACTIVE, isCapturing := True\<rparr> in
      case audioContextRef s1 of
        None \<Rightarrow> Threw ''TypeError'' s1
      | Some c \<Rightarrow>
          Done (s1\<lparr>frameIntervalRef := Some (nextTimerId s1), nextTimerId := Suc (nextTimerId s1)\<rparr>))"

text \<open>
  The fields of a \<open>LiveServerMessage\<close> that \<open>onmessage\<close> reads: the two transcription
  texts, \<open>serverContent.modelTurn\<close> with its optional \<open>parts\<close>, each part with the
  optional \<open>data\<close> of its \<open>inlineData\<close>, \<open>serverContent.interrupted\<close> and
  \<open>toolCall.functionCalls\<close>.
\<close>

record Part =
  inlineData :: "string option"

record Content =
  parts :: "Part list option"

record message =
  outputTranscription :: "string option"
  inputTranscription :: "string option"
  modelTurn :: "Content option"
  interrupted :: bool
  toolCall :: "FunctionCall list option"

text \<open>
  \<open>message.serverContent?.modelTurn?.parts[0]?.inlineData?.data\<close>. The optional chain
  guards \<open>modelTurn\<close>, the first part and its \<open>inlineData\<close>, but not
  \<open>parts\<close>: on a model turn without parts the index throws a TypeError. Where the chain
  yields \<open>undefined\<close> the result is the empty string, which is falsy as well.
\<close>

definition readAudioData :: "message \<Rightarrow> string + string" where
  "readAudioData m =
     (case modelTurn m of
        None \<Rightarrow> Inr []
      | Some content \<Rightarrow>
          (case parts content of
             None \<Rightarrow> Inl ''TypeError''
           | Some [] \<Rightarrow> Inr []
           | Some (part # rest) \<Rightarrow>
               (case inlineData part of None \<Rightarrow> Inr [] | Some d \<Rightarrow> Inr d)))"

text \<open>
  What the environment answers during one call of \<open>onmessage\<close>: \<open>Date.now()\<close>,
  \<open>ctx.currentTime\<close> of the output context, the helper \<open>decodeAudioData\<close> of
  \<open>utils/audio-helpers\<close> applied to the payload (it throws or returns a buffer), and the
  identifier that the \<open>k\<close>-th evaluation of
  \<open>Math.random().toString(36).substr(2, 9)\<close> gives.
\<close>

record msg_env =
  dateNow :: nat
  currentTime :: real
  decodeAudioData :: "string \<Rightarrow> string + AudioBuffer"
  randomId :: "nat \<Rightarrow> string"

definition routeTranscription :: "msg_env \<Rightarrow> message \<Rightarrow> app_state \<Rightarrow> app_state" where
  "routeTranscription env m s =
     (case outputTranscription m of
        Some txt \<Rightarrow> addTranscription (dateNow env) txt model s
      | None \<Rightarrow>
          (case inputTranscription m of
             Some txt \<Rightarrow> addTranscription (dateNow env) txt user s
           | None \<Rightarrow> s))"

text \<open>
  The playback scheduler. \<open>source.start(t)\<close> on the fresh node is logged in
  \<open>startedSources\<close> as the node, its start time and the duration of its buffer.
\<close>

definition scheduleAudio :: "msg_env \<Rightarrow> message \<Rightarrow> app_state \<Rightarrow> outcome" where
  "scheduleAudio env m s =
     (case readAudioData m of
        Inl e \<Rightarrow> Threw e s
      | Inr audioData \<Rightarrow>
          (if audioData \<noteq> [] \<and> outputAudioContextRef s \<noteq> None then
             (let s1 = s\<lparr>isAiSpeaking := True,
                          nextStartTimeRef := max (nextStartTimeRef s) (currentTime env)\<rparr> in
              case decodeAudioData env audioData of
                Inl e \<Rightarrow> Threw e s1
              | Inr audioBuffer \<Rightarrow>
                  Done (s1\<lparr>startedSources := startedSources s1 @
                               [(nextSourceId s1, nextStartTimeRef s1, duration audioBuffer)],
                            nextStartTimeRef := nextStartTimeRef s1 + duration audioBuffer,
                            sourcesRef := sourcesRef s1 @ [nextSourceId s1],
                            nextSourceId := Suc (nextSourceId s1)\<rparr>))
           else Done s))"

definition handleInterruption :: "message \<Rightarrow> app_state \<Rightarrow> app_state" where
  "handleInterruption m s =
     (if interrupted m then
        (stopAllSources s)\<lparr>nextStartTimeRef := 0, isAiSpeaking := False\<rparr>
      else s)"

text \<open>
  The loop over \<open>message.toolCall.functionCalls\<close>; \<open>k\<close> counts the identifiers drawn
  so far. For a call named \<open>click_answer\<close>: the marker is appended, its removal is
  scheduled after 4000 ms, the response is sent. Any other call is passed over.
\<close>

fun dispatchToolCalls :: "(nat \<Rightarrow> string) \<Rightarrow> nat \<Rightarrow> FunctionCall list \<Rightarrow> app_state \<Rightarrow> app_state" where
  "dispatchToolCalls rnd k [] s = s"
| "dispatchToolCalls rnd k (fc # fcs) s =
     (if fc_name fc = ''click_answer'' then
        dispatchToolCalls rnd (Suc k) fcs
          (s\<lparr>clicks := clicks s @
                 [\<lparr>click_x = arg_x (fc_args fc), click_y = arg_y (fc_args fc),
                   click_label = arg_label (fc_args fc), click_id = rnd k\<rparr>],
              markerTimeouts := markerTimeouts s @ [(rnd k, 4000)],
              sentToolResponses := sentToolResponses s @
                 [\<lparr>fr_id = fc_id fc, fr_name = fc_name fc, fr_response = [(''result'', ''ok'')]\<rparr>]\<rparr>)
      else dispatchToolCalls rnd k fcs s)"

definition handleToolCall :: "msg_env \<Rightarrow> message \<Rightarrow> app_state \<Rightarrow> app_state" where
  "handleToolCall env m s =
     (case toolCall m of
        None \<Rightarrow> s
      | Some functionCalls \<Rightarrow> dispatchToolCalls (randomId env) 0 functionCalls s)"

text \<open>
  \<open>onmessage\<close>: the four blocks in their order. The scheduler awaits the decoder, which
  converts the bytes itself and waits for nothing, so the handler goes on before another event
  is dispatched. When the read of the audio data or the decoder throws, the handler ends there
  and the two blocks after it do not run.
\<close>

definition onmessage :: "msg_env \<Rightarrow> message \<Rightarrow> app_state \<Rightarrow> outcome" where
  "onmessage env m s =
     andThen (scheduleAudio env m (routeTranscription env m s))
       (\<lambda>s'. Done (handleToolCall env m (handleInterruption m s')))"

text \<open>\<open>source.onended\<close> of a scheduled node.\<close>

definition onended :: "handle \<Rightarrow> app_state \<Rightarrow> app_state" where
  "onended source s =
     (let s1 = s\<lparr>sourcesRef := removeAll source (sourcesRef s)\<rparr> in
      if sourcesRef s1 = [] then s1\<lparr>isAiSpeaking := False\<rparr> else s1)"

text \<open>The callback of the marker's \<open>setTimeout\<close>.\<close>

definition expireMarker :: "string \<Rightarrow> app_state \<Rightarrow> app_state" where
  "expireMarker i s = s\<lparr>clicks := filter (\<lambda>c. click_id c \<noteq> i) (clicks s)\<rparr>"

definition onerror :: "app_state \<Rightarrow> app_state" where
  "onerror s = handleStop (s\<lparr>error := Some ''Connection issue detected. Re-syncing...''\<rparr>)"

definition onclose :: "app_state \<Rightarrow> app_state" where
  "onclose s = handleStop s"

section \<open>Events\<close>

text \<open>
  The events that reach the component. The first two are clicks on the header's button,
  which is \<open>startScreenShare\<close> while no screen is shared and otherwise
  \<open>status === SessionStatus.IDLE ? startAISession : handleStop\<close>. A click that starts a
  session runs \<open>startAISession\<close> to the call of \<open>ai.live.connect\<close>, when nothing
  arrives in between; \<open>ClickStartSession\<close> is such a click taken only to the call of
  \<open>getUserMedia\<close>, and \<open>MicrophoneSettled\<close> the settling of that call.
  \<open>ConnectSettled\<close> is the settling of \<open>sessionPromise\<close>,
  \<open>ScreenTrackEnded\<close> the \<open>onended\<close> of the screen's video track.
\<close>

datatype event =
    ClickShareScreen "string + handle"
  | ClickSessionButton start_env
  | ClickStartSession start_env
  | MicrophoneSettled start_env
  | ConnectSettled "string + handle"
  | OnOpen
  | OnMessage msg_env message
  | OnError
  | OnClose
  | ScreenTrackEnded
  | SourceEnded handle
  | MarkerTimeout string

fun step :: "event \<Rightarrow> app_state \<Rightarrow> app_state" where
  "step (ClickShareScreen r) s = (if isScreenShared s then s else startScreenShare r s)"
| "step (ClickSessionButton env) s =
     (if isScreenShared s then
        (if status s = IDLE then result_state (startAISession_begin env s) else handleStop s)
      else s)"
| "step (ClickStartSession env) s =
     (if isScreenShared s \<and> status s = IDLE then
        result_state (startAISession_toMicrophone env s)
      else s)"
| "step (MicrophoneSettled env) s = result_state (startAISession_fromMicrophone env s)"
| "step (ConnectSettled r) s = startAISession_settle r s"
| "step OnOpen s = state_of (onopen s)"
| "step (OnMessage env m) s = state_of (onmessage env m s)"
| "step OnError s = onerror s"
| "step OnClose s = onclose s"
| "step ScreenTrackEnded s = handleStop s"
| "step (SourceEnded source) s = onended source s"
| "step (MarkerTimeout i) s = expireMarker i s"

fun run :: "app_state \<Rightarrow> event list \<Rightarrow> app_state" where
  "run s [] = s"
| "run s (e # es) = run (step e s) es"

section \<open>Notions used in the statements\<close>

text \<open>The handle a reference holds, as a list: what a guarded block of \<open>handleStop\<close> releases.\<close>

definition held :: "handle option \<Rightarrow> handle list" where
  "held r = (case r of None \<Rightarrow> [] | Some h \<Rightarrow> [h])"

text \<open>
  The statements of \<open>handleStop\<close> and of \<open>onerror\<close> one by one, and the states a
  sequence of statements passes through.
\<close>

definition handleStop_statements :: "(app_state \<Rightarrow> app_state) list" where
  "handleStop_statements =
     [clearFrameInterval, closeActiveSession, stopScreenStream, stopMicStream, stopAllSources,
      (\<lambda>s. s\<lparr>status := IDLE\<rparr>), (\<lambda>s. s\<lparr>isScreenShared := False\<rparr>),
      (\<lambda>s. s\<lparr>isAiSpeaking := False\<rparr>), (\<lambda>s. s\<lparr>isCapturing := False\<rparr>),
      (\<lambda>s. s\<lparr>nextStartTimeRef := 0\<rparr>)]"

definition onerror_statements :: "(app_state \<Rightarrow> app_state) list" where
  "onerror_statements =
     (\<lambda>s. s\<lparr>error := Some ''Connection issue detected. Re-syncing...''\<rparr>) # handleStop_statements"

fun states_through :: "app_state \<Rightarrow> (app_state \<Rightarrow> app_state) list \<Rightarrow> app_state list" where
  "states_through s [] = [s]"
| "states_through s (f # fs) = s # states_through (f s) fs"

text \<open>An environment in which every acquisition succeeds, and a run that reaches ACTIVE.\<close>

definition env_ok :: start_env where
  "env_ok = \<lparr>API_KEY = ''key'', newOutputContext = Inr 10, resumeOutputContext = None,
     getUserMedia = Inr 20, newInputContext = Inr 11, resumeInputContext = None\<rparr>"

definition active_trace :: "event list" where
  "active_trace = [ClickShareScreen (Inr 1), ClickSessionButton env_ok, OnOpen, ConnectSettled (Inr 30)]"

text \<open>
  An invocation that the dispatcher accepts, the response and the marker it gets, and the
  invocations of a message.
\<close>

definition accepted :: "FunctionCall \<Rightarrow> bool" where
  "accepted fc = (fc_name fc = ''click_answer'')"

definition answer :: "FunctionCall \<Rightarrow> FunctionResponse" where
  "answer fc = \<lparr>fr_id = fc_id fc, fr_name = fc_name fc, fr_response = [(''result'', ''ok'')]\<rparr>"

definition marker :: "FunctionCall \<Rightarrow> string \<Rightarrow> ClickAction" where
  "marker fc i = \<lparr>click_x = arg_x (fc_args fc), click_y = arg_y (fc_args fc),
     click_label = arg_label (fc_args fc), click_id = i\<rparr>"

definition calls :: "message \<Rightarrow> FunctionCall list" where
  "calls m = (case toolCall m of None \<Rightarrow> [] | Some functionCalls \<Rightarrow> functionCalls)"

text \<open>
  A playback slot is an entry of \<open>startedSources\<close>. A message delivers a chunk when it has
  audio that decodes and no interruption flag.
\<close>

definition start_time :: "handle \<times> real \<times> real \<Rightarrow> real" where
  "start_time slot = fst (snd slot)"

definition slot_duration :: "handle \<times> real \<times> real \<Rightarrow> real" where
  "slot_duration slot = snd (snd slot)"

definition delivers_chunk :: "msg_env \<times> message \<Rightarrow> bool" where
  "delivers_chunk em =
     ((case readAudioData (snd em) of
         Inl e \<Rightarrow> False
       | Inr d \<Rightarrow> d \<noteq> [] \<and> \<not> isl (decodeAudioData (fst em) d)) \<and>
      \<not> interrupted (snd em))"

definition chunk_duration :: "msg_env \<times> message \<Rightarrow> real" where
  "chunk_duration em =
     (case readAudioData (snd em) of
        Inl e \<Rightarrow> 0
      | Inr d \<Rightarrow> (case decodeAudioData (fst em) d of Inl e \<Rightarrow> 0 | Inr b \<Rightarrow> duration b))"

definition chunk_events :: "(msg_env \<times> message) list \<Rightarrow> event list" where
  "chunk_events ems = map (\<lambda>em. OnMessage (fst em) (snd em)) ems"

definition new_slots :: "app_state \<Rightarrow> app_state \<Rightarrow> (handle \<times> real \<times> real) list" where
  "new_slots s s' = drop (length (startedSources s)) (startedSources s')"

definition scheduled_well :: "app_state \<Rightarrow> (msg_env \<times> message) list \<Rightarrow> bool" where
  "scheduled_well s ems =
     (let s' = run s (chunk_events ems); new = new_slots s s' in
      outputAudioContextRef s' \<noteq> None \<and>
      startedSources s' = startedSources s @ new \<and>
      length new = length ems \<and>
      nextStartTimeRef s \<le> nextStartTimeRef s' \<and>
      (\<forall>x \<in> set new. start_time x + slot_duration x \<le> nextStartTimeRef s') \<and>
      (\<forall>i < length ems. currentTime (fst (ems ! i)) \<le> start_time (new ! i) \<and>
          slot_duration (new ! i) = chunk_duration (ems ! i)) \<and>
      (\<forall>i. Suc i < length ems \<longrightarrow>
          start_time (new ! i) + slot_duration (new ! i) \<le> start_time (new ! Suc i)))"

text \<open>What has been released so far, and the references to what is live.\<close>

definition live_refs :: "app_state \<Rightarrow> handle option \<times> handle option \<times> handle list" where
  "live_refs s = (frameIntervalRef s, activeSessionRef s, sourcesRef s)"

definition teardown_log :: "app_state \<Rightarrow> handle list \<times> handle list \<times> handle list \<times> handle list" where
  "teardown_log s = (clearedIntervals s, closedSessions s, stoppedStreams s, stoppedSources s)"

text \<open>
  The output audio context or the microphone is not acquired: the constructor throws when a
  context is needed, \<open>resume()\<close> rejects, or \<open>getUserMedia\<close> rejects.
\<close>

definition acquisition_fails :: "start_env \<Rightarrow> app_state \<Rightarrow> bool" where
  "acquisition_fails env s =
     ((outputAudioContextRef s = None \<and> isl (newOutputContext env)) \<or>
      resumeOutputContext env \<noteq> None \<or> isl (getUserMedia env))"

section \<open>Concrete inputs\<close>

definition audio_turn :: "string \<Rightarrow> Content option" where
  "audio_turn d = Some \<lparr>parts = Some [\<lparr>inlineData = Some d\<rparr>]\<rparr>"

definition click_submit :: message where
  "click_submit = \<lparr>outputTranscription = None, inputTranscription = None, modelTurn = None,
     interrupted = False,
     toolCall = Some [\<lparr>fc_id = ''abc'', fc_name = ''click_answer'',
       fc_args = \<lparr>arg_x = 42, arg_y = 17, arg_label = ''Submit''\<rparr>\<rparr>]\<rparr>"

definition three_calls :: message where
  "three_calls = \<lparr>outputTranscription = Some ''Here.'', inputTranscription = None, modelTurn = None,
     interrupted = False,
     toolCall = Some
       [\<lparr>fc_id = ''c1'', fc_name = ''click_answer'',
          fc_args = \<lparr>arg_x = 10, arg_y = 20, arg_label = ''A''\<rparr>\<rparr>,
        \<lparr>fc_id = ''c2'', fc_name = ''scroll_page'',
          fc_args = \<lparr>arg_x = 0, arg_y = 0, arg_label = []\<rparr>\<rparr>,
        \<lparr>fc_id = ''c3'', fc_name = ''click_answer'',
          fc_args = \<lparr>arg_x = 30, arg_y = 40, arg_label = ''B''\<rparr>\<rparr>]\<rparr>"

text \<open>
  An environment whose clock reads \<open>t\<close> and whose decoder gives one second of audio for
  every character of the payload.
\<close>

definition env_at :: "real \<Rightarrow> msg_env" where
  "env_at t = \<lparr>dateNow = 1000, currentTime = t,
     decodeAudioData = (\<lambda>d. if d = ''bad'' then Inl ''DecodeError''
        else Inr \<lparr>ab_length = AUDIO_SAMPLE_RATE * length d, ab_sampleRate = AUDIO_SAMPLE_RATE\<rparr>),
     randomId = (\<lambda>k. replicate (Suc k) CHR ''m'')\<rparr>"

definition transcript_message :: message where
  "transcript_message = \<lparr>outputTranscription = Some ''t'', inputTranscription = None,
     modelTurn = None, interrupted = False, toolCall = None\<rparr>"

definition transcript_events :: "nat \<Rightarrow> event list" where
  "transcript_events n = map (\<lambda>i. OnMessage (env_at (real i)) transcript_message) [0..<n]"

definition audio_message :: "string \<Rightarrow> message" where
  "audio_message d = \<lparr>outputTranscription = None, inputTranscription = None,
     modelTurn = audio_turn d,
     interrupted = False, toolCall = None\<rparr>"

definition three_chunks :: "(msg_env \<times> message) list" where
  "three_chunks = [(env_at 5, audio_message ''ab''), (env_at 6, audio_message ''abc''),
     (env_at 20, audio_message ''a'')]"

definition interruption :: message where
  "interruption = \<lparr>outputTranscription = None, inputTranscription = None, modelTurn = None,
     interrupted = True, toolCall = None\<rparr>"

definition env_second :: start_env where
  "env_second = \<lparr>API_KEY = ''key'', newOutputContext = Inr 12, resumeOutputContext = None,
     getUserMedia = Inr 21, newInputContext = Inr 13, resumeInputContext = None\<rparr>"

definition env_no_key :: start_env where
  "env_no_key = \<lparr>API_KEY = [], newOutputContext = Inr 10, resumeOutputContext = None,
     getUserMedia = Inr 20, newInputContext = Inr 11, resumeInputContext = None\<rparr>"

definition env_mic_denied :: start_env where
  "env_mic_denied = \<lparr>API_KEY = ''key'', newOutputContext = Inr 10, resumeOutputContext = None,
     getUserMedia = Inl ''Permission denied'', newInputContext = Inr 11,
     resumeInputContext = None\<rparr>"

text \<open>
  Messages on which the handler throws before it comes to the interruption and the tool calls:
  a model turn without parts, and audio on which the decoder of \<open>env_at\<close> throws.
\<close>

definition call_without_parts :: message where
  "call_without_parts = \<lparr>outputTranscription = None, inputTranscription = None,
     modelTurn = Some \<lparr>parts = None\<rparr>, interrupted = False,
     toolCall = Some [\<lparr>fc_id = ''abc'', fc_name = ''click_answer'',
       fc_args = \<lparr>arg_x = 42, arg_y = 17, arg_label = ''Submit''\<rparr>\<rparr>]\<rparr>"

definition call_with_bad_audio :: message where
  "call_with_bad_audio = \<lparr>outputTranscription = None, inputTranscription = None,
     modelTurn = audio_turn ''bad'', interrupted = False,
     toolCall = Some [\<lparr>fc_id = ''abc'', fc_name = ''click_answer'',
       fc_args = \<lparr>arg_x = 42, arg_y = 17, arg_label = ''Submit''\<rparr>\<rparr>]\<rparr>"

definition interruption_without_parts :: message where
  "interruption_without_parts = \<lparr>outputTranscription = None, inputTranscription = None,
     modelTurn = Some \<lparr>parts = None\<rparr>, interrupted = True, toolCall = None\<rparr>"

definition interruption_with_bad_audio :: message where
  "interruption_with_bad_audio = \<lparr>outputTranscription = None, inputTranscription = None,
     modelTurn = audio_turn ''bad'', interrupted = True, toolCall = None\<rparr>"

text \<open>
  A run in which the user stops a session while \<open>getUserMedia\<close> is pending, after which
  the microphone is granted and the connection opens.
\<close>

definition stopped_at_microphone :: "event list" where
  "stopped_at_microphone =
     [ClickShareScreen (Inr 1), ClickStartSession env_ok, ClickSessionButton env_ok,
      MicrophoneSettled env_ok, OnOpen, ConnectSettled (Inr 30)]"

text \<open>
  A run in which the user stops a session that is still connecting, shares the screen again and
  starts a second session, after which both connections open.
\<close>

definition stopped_while_connecting :: "event list" where
  "stopped_while_connecting =
     [ClickShareScreen (Inr 1), ClickSessionButton env_ok, ClickSessionButton env_ok]"

definition started_again :: "event list" where
  "started_again = stopped_while_connecting @ [ClickShareScreen (Inr 2), ClickSessionButton env_second]"

definition first_connected :: "event list" where
  "first_connected = started_again @ [OnOpen, ConnectSettled (Inr 30)]"

definition second_connected :: "event list" where
  "second_connected = first_connected @ [OnOpen, ConnectSettled (Inr 31)]"

section \<open>Properties of the transcript window\<close>

lemma slice_last_snoc:
  "slice_last 20 xs @ [x] = slice_last 21 (xs @ [x])"
  by (simp add: slice_last_def)

lemma slice_last_slice_last_append:
  "m \<le> n + length ys \<Longrightarrow> slice_last m (slice_last n xs @ ys) = slice_last m (xs @ ys)"
proof (cases "length xs \<le> n")
  case True
  then show ?thesis by (simp add: slice_last_def)
next
  case False
  assume m: "m \<le> n + length ys"
  from False have k: "length xs - (length xs - n) = n" by arith
  show ?thesis
  proof (cases "m \<le> length ys")
    case True
    then show ?thesis using False by (simp add: slice_last_def k)
  next
    case F2: False
    have a: "n + length ys - m + (length xs - n) = length xs + length ys - m"
      using False m F2 by arith
    have b: "n + length ys - m - n = 0" "length xs + length ys - m - length xs = 0"
      using False m F2 by arith+
    show ?thesis using False F2 m by (simp add: slice_last_def k a b)
  qed
qed

lemma transcriptions_addTranscription:
  "transcriptions (addTranscription now txt who s) =
     slice_last 21 (transcriptions s @ [entry (txt, who, now)])"
  by (simp add: addTranscription_def entry_def slice_last_snoc)

lemma transcriptions_addAll:
  "es \<noteq> [] \<Longrightarrow>
     transcriptions (addAll es s) = slice_last 21 (transcriptions s @ map entry es)"
proof (induction es arbitrary: s)
  case Nil
  then show ?case by simp
next
  case (Cons e es)
  show ?case
  proof (cases es)
    case Nil
    then show ?thesis
      by (simp add: transcriptions_addTranscription)
  next
    case (Cons e' es')
    have "transcriptions (addAll (e # es) s) =
            slice_last 21 (transcriptions (addTranscription (snd (snd e)) (fst e) (fst (snd e)) s)
              @ map entry es)"
      using Cons.IH [of "addTranscription (snd (snd e)) (fst e) (fst (snd e)) s"] Cons
      by simp
    also have "\<dots> = slice_last 21 (slice_last 21 (transcriptions s @ [entry e]) @ map entry es)"
      by (simp add: transcriptions_addTranscription)
    also have "\<dots> = slice_last 21 ((transcriptions s @ [entry e]) @ map entry es)"
      by (rule slice_last_slice_last_append) simp
    finally show ?thesis by simp
  qed
qed

lemma length_numbered: "length (numbered n) = n"
  by (simp add: numbered_def)

lemma transcriptions_addAll_long:
  "20 < length es \<Longrightarrow>
     transcriptions (addAll es s) = map entry (drop (length es - 21) es)"
proof -
  assume long: "20 < length es"
  then have ne: "es \<noteq> []" by auto
  have "transcriptions (addAll es s) = slice_last 21 (transcriptions s @ map entry es)"
    using ne by (rule transcriptions_addAll)
  also have "\<dots> = drop (length (transcriptions s) + (length es - 21)) (transcriptions s @ map entry es)"
    using long by (simp add: slice_last_def)
  also have "\<dots> = drop (length es - 21) (map entry es)"
    by simp
  finally show ?thesis by (simp add: drop_map)
qed

text \<open>
  What the code keeps. After more than 20 entries have been appended, whatever the window held
  before, the window holds exactly the 21 most recent entries: the 20 that
  \<open>prev.slice(-20)\<close> keeps and the entry just appended, in the order of their arrival.
\<close>

lemma window_is_last_21:
  "20 < length es \<Longrightarrow>
     transcriptions (addAll es s) = map entry (drop (length es - 21) es) \<and>
     length (transcriptions (addAll es s)) = 21"
  by (simp add: transcriptions_addAll_long)

lemma transcript_events_21:
  "length (transcriptions (run initial (transcript_events 21))) = 21"
  by code_simp

text \<open>
  Claim C1 fails on the code. After 21 entries are appended to the empty window, the window
  holds all 21 of them, the oldest included, where the claim has the 20 most recent. The same
  count results from 21 inbound messages that each carry an output transcription.
\<close>

theorem C1_window_holds_21_entries:
  "20 < length (numbered 21) \<and>
   length (transcriptions (addAll (numbered 21) initial)) = 21 \<and>
   transcriptions (addAll (numbered 21) initial) = map entry (numbered 21) \<and>
   transcriptions (addAll (numbered 21) initial) \<noteq> map entry (slice_last 20 (numbered 21)) \<and>
   length (transcriptions (run initial (transcript_events 21))) = 21"
proof -
  have a: "transcriptions (addAll (numbered 21) initial) = map entry (numbered 21)"
    using transcriptions_addAll_long [of "numbered 21" initial]
    by (simp add: length_numbered)
  have b: "length (map entry (slice_last 20 (numbered 21))) = 20"
    by (simp add: slice_last_def length_numbered)
  have c: "length (map entry (numbered 21)) = 21"
    by (simp add: length_numbered)
  have "map entry (numbered 21) \<noteq> map entry (slice_last 20 (numbered 21))"
  proof
    assume "map entry (numbered 21) = map entry (slice_last 20 (numbered 21))"
    then have "length (map entry (numbered 21)) = length (map entry (slice_last 20 (numbered 21)))"
      by (rule arg_cong)
    then show False unfolding b c by simp
  qed
  with a c transcript_events_21 show ?thesis by (simp add: length_numbered)
qed

section \<open>Teardown and the error handler, statement by statement\<close>

lemmas teardown_defs = handleStop_def stopAllSources_def stopMicStream_def stopScreenStream_def
  closeActiveSession_def clearFrameInterval_def

lemma handleStop_as_update:
  "handleStop s = s\<lparr>status := IDLE, isScreenShared := False, isAiSpeaking := False,
      isCapturing := False, nextStartTimeRef := 0, frameIntervalRef := None,
      activeSessionRef := None, screenStreamRef := None, micStreamRef := None, sourcesRef := [],
      clearedIntervals := clearedIntervals s @ held (frameIntervalRef s),
      closedSessions := closedSessions s @ held (activeSessionRef s),
      stoppedStreams := stoppedStreams s @ held (screenStreamRef s) @ held (micStreamRef s),
      stoppedSources := stoppedSources s @ sourcesRef s\<rparr>"
  by (simp add: teardown_defs held_def split: option.splits)

lemma states_through_nonempty: "states_through s fs \<noteq> []"
  by (cases fs) auto

lemma last_states_through: "last (states_through s fs) = foldl (\<lambda>s f. f s) s fs"
  by (induction fs arbitrary: s) (auto simp: states_through_nonempty)

lemma onerror_last: "last (states_through s onerror_statements) = onerror s"
  by (simp add: last_states_through onerror_statements_def handleStop_statements_def onerror_def handleStop_def)

lemma status_small_steps:
  "status (clearFrameInterval s) = status s"
  "status (closeActiveSession s) = status s"
  "status (stopScreenStream s) = status s"
  "status (stopMicStream s) = status s"
  "status (stopAllSources s) = status s"
  by (simp_all add: teardown_defs split: option.splits)

lemma onerror_statuses:
  "set (map status (states_through s onerror_statements)) = {status s, IDLE}"
  by (auto simp add: onerror_statements_def handleStop_statements_def status_small_steps)

lemma active_state: "status (run initial active_trace) = ACTIVE"
  "activeSessionRef (run initial active_trace) = Some 30"
  "frameIntervalRef (run initial active_trace) = Some 1"
  "micStreamRef (run initial active_trace) = Some 20"
  "screenStreamRef (run initial active_trace) = Some 1"
  by (simp_all add: active_trace_def initial_def env_ok_def startScreenShare_def startAISession_begin_def
     acquireOutputContext_def acquireMicrophone_def acquireInputContext_def onopen_def startAISession_settle_def)

section \<open>The dispatcher and the blocks of onmessage\<close>

lemma dispatch_sent:
  "sentToolResponses (dispatchToolCalls rnd k fcs s) =
     sentToolResponses s @ map answer (filter accepted fcs)"
  by (induction fcs arbitrary: k s) (simp_all add: accepted_def answer_def)

lemma dispatch_clicks:
  "clicks (dispatchToolCalls rnd k fcs s) =
     clicks s @ map (\<lambda>(fc, i). marker fc (rnd i))
       (zip (filter accepted fcs) [k ..< k + length (filter accepted fcs)])"
proof (induction fcs arbitrary: k s)
  case Nil
  then show ?case by simp
next
  case (Cons fc fcs)
  show ?case
  proof (cases "accepted fc")
    case True
    have u: "[k ..< Suc (k + n)] = k # [Suc k ..< Suc (k + n)]" for n
      by (simp add: upt_conv_Cons)
    from True show ?thesis
      by (simp add: Cons.IH accepted_def marker_def u del: upt_Suc)
  next
    case False
    then show ?thesis by (simp add: Cons.IH accepted_def)
  qed
qed

lemma dispatch_timeouts:
  "markerTimeouts (dispatchToolCalls rnd k fcs s) =
     markerTimeouts s @ map (\<lambda>i. (rnd i, 4000)) [k ..< k + length (filter accepted fcs)]"
proof (induction fcs arbitrary: k s)
  case Nil
  then show ?case by simp
next
  case (Cons fc fcs)
  show ?case
  proof (cases "accepted fc")
    case True
    have u: "[k ..< Suc (k + n)] = k # [Suc k ..< Suc (k + n)]" for n
      by (simp add: upt_conv_Cons)
    from True show ?thesis
      by (simp add: Cons.IH accepted_def u del: upt_Suc)
  next
    case False
    then show ?thesis by (simp add: Cons.IH accepted_def)
  qed
qed

lemma dispatch_frame:
  "status (dispatchToolCalls rnd k fcs s) = status s"
  "error (dispatchToolCalls rnd k fcs s) = error s"
  "transcriptions (dispatchToolCalls rnd k fcs s) = transcriptions s"
  "isAiSpeaking (dispatchToolCalls rnd k fcs s) = isAiSpeaking s"
  "outputAudioContextRef (dispatchToolCalls rnd k fcs s) = outputAudioContextRef s"
  "nextStartTimeRef (dispatchToolCalls rnd k fcs s) = nextStartTimeRef s"
  "sourcesRef (dispatchToolCalls rnd k fcs s) = sourcesRef s"
  "stoppedSources (dispatchToolCalls rnd k fcs s) = stoppedSources s"
  "startedSources (dispatchToolCalls rnd k fcs s) = startedSources s"
  "nextSourceId (dispatchToolCalls rnd k fcs s) = nextSourceId s"
  by (induction fcs arbitrary: k s) simp_all

lemma handleToolCall_frame:
  "status (handleToolCall env m s) = status s"
  "error (handleToolCall env m s) = error s"
  "transcriptions (handleToolCall env m s) = transcriptions s"
  "isAiSpeaking (handleToolCall env m s) = isAiSpeaking s"
  "outputAudioContextRef (handleToolCall env m s) = outputAudioContextRef s"
  "nextStartTimeRef (handleToolCall env m s) = nextStartTimeRef s"
  "sourcesRef (handleToolCall env m s) = sourcesRef s"
  "stoppedSources (handleToolCall env m s) = stoppedSources s"
  "startedSources (handleToolCall env m s) = startedSources s"
  "nextSourceId (handleToolCall env m s) = nextSourceId s"
  by (simp_all add: handleToolCall_def dispatch_frame split: option.splits)

lemma handleToolCall_sent:
  "sentToolResponses (handleToolCall env m s) =
     sentToolResponses s @ map answer (filter accepted (calls m))"
  by (simp add: handleToolCall_def calls_def dispatch_sent split: option.splits)

lemma routeTranscription_frame:
  "status (routeTranscription env m s) = status s"
  "error (routeTranscription env m s) = error s"
  "clicks (routeTranscription env m s) = clicks s"
  "markerTimeouts (routeTranscription env m s) = markerTimeouts s"
  "sentToolResponses (routeTranscription env m s) = sentToolResponses s"
  "isAiSpeaking (routeTranscription env m s) = isAiSpeaking s"
  "outputAudioContextRef (routeTranscription env m s) = outputAudioContextRef s"
  "nextStartTimeRef (routeTranscription env m s) = nextStartTimeRef s"
  "sourcesRef (routeTranscription env m s) = sourcesRef s"
  "stoppedSources (routeTranscription env m s) = stoppedSources s"
  "startedSources (routeTranscription env m s) = startedSources s"
  "nextSourceId (routeTranscription env m s) = nextSourceId s"
  by (simp_all add: routeTranscription_def addTranscription_def split: option.splits)

lemma scheduleAudio_frame:
  "status (state_of (scheduleAudio env m s)) = status s"
  "error (state_of (scheduleAudio env m s)) = error s"
  "transcriptions (state_of (scheduleAudio env m s)) = transcriptions s"
  "clicks (state_of (scheduleAudio env m s)) = clicks s"
  "markerTimeouts (state_of (scheduleAudio env m s)) = markerTimeouts s"
  "sentToolResponses (state_of (scheduleAudio env m s)) = sentToolResponses s"
  "outputAudioContextRef (state_of (scheduleAudio env m s)) = outputAudioContextRef s"
  "stoppedSources (state_of (scheduleAudio env m s)) = stoppedSources s"
  by (simp_all add: scheduleAudio_def Let_def split: sum.splits)

lemma handleInterruption_frame:
  "status (handleInterruption m s) = status s"
  "error (handleInterruption m s) = error s"
  "transcriptions (handleInterruption m s) = transcriptions s"
  "clicks (handleInterruption m s) = clicks s"
  "markerTimeouts (handleInterruption m s) = markerTimeouts s"
  "sentToolResponses (handleInterruption m s) = sentToolResponses s"
  "outputAudioContextRef (handleInterruption m s) = outputAudioContextRef s"
  "startedSources (handleInterruption m s) = startedSources s"
  "nextSourceId (handleInterruption m s) = nextSourceId s"
  by (simp_all add: handleInterruption_def stopAllSources_def)

lemma state_of_andThen_Done:
  "state_of (andThen r (\<lambda>s. Done (f s))) = (if completes r then f (state_of r) else state_of r)"
  by (cases r) simp_all

lemma completes_andThen_Done:
  "completes (andThen r (\<lambda>s. Done (f s))) = completes r"
  by (cases r) simp_all

lemma completes_onmessage:
  "completes (onmessage env m s) =
     (case readAudioData m of
        Inl e \<Rightarrow> False
      | Inr d \<Rightarrow> d = [] \<or> outputAudioContextRef s = None \<or> \<not> isl (decodeAudioData env d))"
  by (auto simp add: onmessage_def completes_andThen_Done scheduleAudio_def Let_def routeTranscription_frame
      split: sum.splits)

lemma onmessage_completed:
  "completes (onmessage env m s) \<Longrightarrow>
     state_of (onmessage env m s) =
       handleToolCall env m (handleInterruption m (state_of (scheduleAudio env m (routeTranscription env m s))))"
  by (simp add: onmessage_def state_of_andThen_Done completes_andThen_Done)

lemma onmessage_threw:
  "\<not> completes (onmessage env m s) \<Longrightarrow>
     state_of (onmessage env m s) = state_of (scheduleAudio env m (routeTranscription env m s))"
  by (simp add: onmessage_def state_of_andThen_Done completes_andThen_Done)

lemma onmessage_status: "status (state_of (onmessage env m s)) = status s"
  by (cases "completes (onmessage env m s)")
    (simp_all add: onmessage_completed onmessage_threw handleToolCall_frame handleInterruption_frame
       scheduleAudio_frame routeTranscription_frame)

section \<open>The playback scheduler\<close>

lemma duration_nonneg: "0 \<le> duration b"
  by (simp add: duration_def)

lemma chunk_duration_nonneg: "0 \<le> chunk_duration em"
  by (simp add: chunk_duration_def duration_nonneg split: sum.splits)

lemma run_append: "run s (xs @ ys) = run (run s xs) ys"
  by (induction xs arbitrary: s) simp_all

lemma scheduleAudio_chunk:
  assumes "outputAudioContextRef s \<noteq> None" and "readAudioData m = Inr d" and "d \<noteq> []"
    and "\<not> isl (decodeAudioData env d)"
  shows "startedSources (state_of (scheduleAudio env m s)) =
           startedSources s @
             [(nextSourceId s, max (nextStartTimeRef s) (currentTime env), chunk_duration (env, m))]"
    and "nextStartTimeRef (state_of (scheduleAudio env m s)) =
           max (nextStartTimeRef s) (currentTime env) + chunk_duration (env, m)"
  using assms
  by (cases "decodeAudioData env d";
      simp add: scheduleAudio_def Let_def chunk_duration_def)+

lemma handleInterruption_not: "\<not> interrupted m \<Longrightarrow> handleInterruption m s = s"
  by (simp add: handleInterruption_def)

lemma onmessage_chunk:
  assumes "outputAudioContextRef s \<noteq> None" and "delivers_chunk (env, m)"
  shows "startedSources (state_of (onmessage env m s)) =
           startedSources s @
             [(nextSourceId s, max (nextStartTimeRef s) (currentTime env), chunk_duration (env, m))]"
    and "nextStartTimeRef (state_of (onmessage env m s)) =
           max (nextStartTimeRef s) (currentTime env) + chunk_duration (env, m)"
    and "outputAudioContextRef (state_of (onmessage env m s)) = outputAudioContextRef s"
proof -
  from assms(2) obtain d where
    a: "readAudioData m = Inr d" "d \<noteq> []" "\<not> isl (decodeAudioData env d)"
    by (cases "readAudioData m") (simp_all add: delivers_chunk_def)
  from a have c: "completes (onmessage env m s)"
    by (simp add: completes_onmessage)
  from assms have ni: "\<not> interrupted m" by (simp add: delivers_chunk_def)
  have ctx: "outputAudioContextRef (routeTranscription env m s) \<noteq> None"
    using assms by (simp add: routeTranscription_frame)
  show "startedSources (state_of (onmessage env m s)) =
           startedSources s @
             [(nextSourceId s, max (nextStartTimeRef s) (currentTime env), chunk_duration (env, m))]"
    by (simp add: onmessage_completed [OF c] handleToolCall_frame handleInterruption_not [OF ni]
        scheduleAudio_chunk [OF ctx a] routeTranscription_frame)
  show "nextStartTimeRef (state_of (onmessage env m s)) =
           max (nextStartTimeRef s) (currentTime env) + chunk_duration (env, m)"
    by (simp add: onmessage_completed [OF c] handleToolCall_frame handleInterruption_not [OF ni]
        scheduleAudio_chunk [OF ctx a] routeTranscription_frame)
  show "outputAudioContextRef (state_of (onmessage env m s)) = outputAudioContextRef s"
    by (simp add: onmessage_completed [OF c] handleToolCall_frame handleInterruption_not [OF ni]
        scheduleAudio_frame routeTranscription_frame)
qed

lemma scheduled_well_all:
  assumes ctx: "outputAudioContextRef s \<noteq> None"
    and chunks: "list_all delivers_chunk ems"
  shows "scheduled_well s ems"
  using chunks
proof (induction ems rule: rev_induct)
  case Nil
  with ctx show ?case
    by (simp add: scheduled_well_def chunk_events_def new_slots_def)
next
  case (snoc em ems)
  obtain env m where em: "em = (env, m)" by (cases em)
  define s' where "s' = run s (chunk_events ems)"
  define new where "new = new_slots s s'"
  define s'' where "s'' = state_of (onmessage env m s')"
  define slot where "slot = (nextSourceId s', max (nextStartTimeRef s') (currentTime env), chunk_duration (env, m))"
  from snoc.prems have all: "list_all delivers_chunk ems" and dc: "delivers_chunk (env, m)"
    by (simp_all add: em)
  have IH: "outputAudioContextRef s' \<noteq> None \<and>
      startedSources s' = startedSources s @ new \<and>
      length new = length ems \<and>
      nextStartTimeRef s \<le> nextStartTimeRef s' \<and>
      (\<forall>x \<in> set new. start_time x + slot_duration x \<le> nextStartTimeRef s') \<and>
      (\<forall>i < length ems. currentTime (fst (ems ! i)) \<le> start_time (new ! i) \<and>
          slot_duration (new ! i) = chunk_duration (ems ! i)) \<and>
      (\<forall>i. Suc i < length ems \<longrightarrow>
          start_time (new ! i) + slot_duration (new ! i) \<le> start_time (new ! Suc i))"
    using snoc.IH [OF all] unfolding scheduled_well_def Let_def new_def s'_def .
  from IH have c': "outputAudioContextRef s' \<noteq> None" by (rule conjunct1)
  from IH have st: "startedSources s' = startedSources s @ new" by blast
  from IH have len: "length new = length ems" by blast
  from IH have mono: "nextStartTimeRef s \<le> nextStartTimeRef s'" by blast
  from IH have ends: "\<forall>x \<in> set new. start_time x + slot_duration x \<le> nextStartTimeRef s'" by blast
  from IH have nows: "\<forall>i < length ems. currentTime (fst (ems ! i)) \<le> start_time (new ! i) \<and>
          slot_duration (new ! i) = chunk_duration (ems ! i)" by blast
  from IH have seq: "\<forall>i. Suc i < length ems \<longrightarrow>
          start_time (new ! i) + slot_duration (new ! i) \<le> start_time (new ! Suc i)" by blast
  have r: "run s (chunk_events (ems @ [em])) = s''"
    by (simp add: chunk_events_def run_append s'_def s''_def em)
  have st'': "startedSources s'' = startedSources s @ new @ [slot]"
    using onmessage_chunk(1) [OF c' dc] by (simp add: s''_def st slot_def)
  have nst'': "nextStartTimeRef s'' = max (nextStartTimeRef s') (currentTime env) + chunk_duration (env, m)"
    using onmessage_chunk(2) [OF c' dc] by (simp add: s''_def)
  have c'': "outputAudioContextRef s'' \<noteq> None"
    using onmessage_chunk(3) [OF c' dc] c' by (simp add: s''_def)
  have new'': "new_slots s s'' = new @ [slot]"
    by (simp add: new_slots_def st'')
  have d0: "0 \<le> chunk_duration (env, m)" by (rule chunk_duration_nonneg)
  have up: "nextStartTimeRef s' \<le> nextStartTimeRef s''"
    using d0 by (simp add: nst'')
  have slot_start: "start_time slot = max (nextStartTimeRef s') (currentTime env)"
    and slot_dur: "slot_duration slot = chunk_duration (env, m)"
    by (simp_all add: slot_def start_time_def slot_duration_def)
  have ends'': "\<forall>x \<in> set (new @ [slot]). start_time x + slot_duration x \<le> nextStartTimeRef s''"
    using ends up by (auto simp add: slot_start slot_dur nst'')
  have nows'': "\<forall>i < length (ems @ [em]). currentTime (fst ((ems @ [em]) ! i)) \<le> start_time ((new @ [slot]) ! i) \<and>
          slot_duration ((new @ [slot]) ! i) = chunk_duration ((ems @ [em]) ! i)"
  proof (intro allI impI)
    fix i assume "i < length (ems @ [em])"
    then consider "i < length ems" | "i = length ems" by fastforce
    then show "currentTime (fst ((ems @ [em]) ! i)) \<le> start_time ((new @ [slot]) ! i) \<and>
          slot_duration ((new @ [slot]) ! i) = chunk_duration ((ems @ [em]) ! i)"
    proof cases
      case 1
      then show ?thesis using nows len by (simp add: nth_append)
    next
      case 2
      then show ?thesis using len by (simp add: nth_append slot_start slot_dur em)
    qed
  qed
  have seq'': "\<forall>i. Suc i < length (ems @ [em]) \<longrightarrow>
          start_time ((new @ [slot]) ! i) + slot_duration ((new @ [slot]) ! i) \<le> start_time ((new @ [slot]) ! Suc i)"
  proof (intro allI impI)
    fix i assume "Suc i < length (ems @ [em])"
    then consider "Suc i < length ems" | "Suc i = length ems" by fastforce
    then show "start_time ((new @ [slot]) ! i) + slot_duration ((new @ [slot]) ! i) \<le> start_time ((new @ [slot]) ! Suc i)"
    proof cases
      case 1
      then show ?thesis using seq len by (simp add: nth_append)
    next
      case 2
      then have "new ! i \<in> set new" using len by simp
      then have "start_time (new ! i) + slot_duration (new ! i) \<le> nextStartTimeRef s'"
        using ends by blast
      then show ?thesis using 2 len by (simp add: nth_append slot_start)
    qed
  qed
  show ?case
    unfolding scheduled_well_def Let_def r new''
    using c'' st'' mono up ends'' nows'' seq'' len by simp
qed

lemma scheduleAudio_nextStartTime_mono:
  "nextStartTimeRef s \<le> nextStartTimeRef (state_of (scheduleAudio env m s))"
proof -
  have a: "nextStartTimeRef s \<le> max (nextStartTimeRef s) t + duration b" for t b
    using duration_nonneg [of b] by linarith
  show ?thesis
    by (simp add: scheduleAudio_def Let_def a split: sum.splits)
qed

lemma onmessage_nextStartTime_mono:
  assumes "\<not> interrupted m"
  shows "nextStartTimeRef s \<le> nextStartTimeRef (state_of (onmessage env m s))"
proof -
  have "nextStartTimeRef s \<le> nextStartTimeRef (state_of (scheduleAudio env m (routeTranscription env m s)))"
    using scheduleAudio_nextStartTime_mono [of "routeTranscription env m s" env m]
    by (simp add: routeTranscription_frame)
  then show ?thesis
    using assms
    by (cases "completes (onmessage env m s)")
      (simp_all add: onmessage_completed onmessage_threw handleToolCall_frame handleInterruption_not)
qed

section \<open>Failing acquisitions in startAISession\<close>

lemmas start_defs = startAISession_begin_def acquireOutputContext_def acquireMicrophone_def
  acquireInputContext_def catchStartError_def

lemma catch_message_nonempty: "(if msg = [] then ''Failed to start AI session.'' else msg) \<noteq> []"
  by simp

lemma begin_missing_key:
  "API_KEY env = [] \<Longrightarrow>
     startAISession_begin env s =
       Returned (s\<lparr>error := Some ''API Key is missing from the environment.''\<rparr>)"
  by (simp add: startAISession_begin_def)

lemma begin_acquisition_fails:
  assumes "API_KEY env \<noteq> []" and "acquisition_fails env s"
  shows "\<exists>msg c. msg \<noteq> [] \<and>
     startAISession_begin env s =
       Returned (s\<lparr>status := IDLE, error := Some msg, outputAudioContextRef := c\<rparr>)"
proof -
  let ?s0 = "s\<lparr>status := CONNECTING, error := None\<rparr>"
  consider
    (ctor) "outputAudioContextRef s = None" "isl (newOutputContext env)"
  | (resume) "resumeOutputContext env \<noteq> None"
      "\<not> (outputAudioContextRef s = None \<and> isl (newOutputContext env))"
  | (mic) "isl (getUserMedia env)" "resumeOutputContext env = None"
      "\<not> (outputAudioContextRef s = None \<and> isl (newOutputContext env))"
    using assms(2) unfolding acquisition_fails_def by auto
  then show ?thesis
  proof cases
    case ctor
    then obtain e where e: "newOutputContext env = Inl e" by (cases "newOutputContext env") auto
    have "startAISession_begin env s =
        Returned (s\<lparr>status := IDLE, error := Some (if e = [] then ''Failed to start AI session.'' else e),
          outputAudioContextRef := outputAudioContextRef s\<rparr>)"
      using assms(1) ctor e by (simp add: start_defs)
    then show ?thesis using catch_message_nonempty by blast
  next
    case resume
    then obtain e where e: "resumeOutputContext env = Some e" by auto
    have "\<exists>c. startAISession_begin env s =
        Returned (s\<lparr>status := IDLE, error := Some (if e = [] then ''Failed to start AI session.'' else e),
          outputAudioContextRef := c\<rparr>)"
    proof (cases "outputAudioContextRef s")
      case None
      with resume obtain c where c: "newOutputContext env = Inr c"
        by (cases "newOutputContext env") auto
      have "startAISession_begin env s =
        Returned (s\<lparr>status := IDLE, error := Some (if e = [] then ''Failed to start AI session.'' else e),
          outputAudioContextRef := Some c\<rparr>)"
        using assms(1) None c e by (simp add: start_defs)
      then show ?thesis by blast
    next
      case (Some c)
      have "startAISession_begin env s =
        Returned (s\<lparr>status := IDLE, error := Some (if e = [] then ''Failed to start AI session.'' else e),
          outputAudioContextRef := outputAudioContextRef s\<rparr>)"
        using assms(1) Some e by (simp add: start_defs)
      then show ?thesis by blast
    qed
    then show ?thesis using catch_message_nonempty by blast
  next
    case mic
    then obtain e where e: "getUserMedia env = Inl e" by (cases "getUserMedia env") auto
    have "\<exists>c. startAISession_begin env s =
        Returned (s\<lparr>status := IDLE, error := Some (if e = [] then ''Failed to start AI session.'' else e),
          outputAudioContextRef := c\<rparr>)"
    proof (cases "outputAudioContextRef s")
      case None
      with mic obtain c where c: "newOutputContext env = Inr c"
        by (cases "newOutputContext env") auto
      have "startAISession_begin env s =
        Returned (s\<lparr>status := IDLE, error := Some (if e = [] then ''Failed to start AI session.'' else e),
          outputAudioContextRef := Some c\<rparr>)"
        using assms(1) None c e mic by (simp add: start_defs)
      then show ?thesis by blast
    next
      case (Some c)
      have "startAISession_begin env s =
        Returned (s\<lparr>status := IDLE, error := Some (if e = [] then ''Failed to start AI session.'' else e),
          outputAudioContextRef := outputAudioContextRef s\<rparr>)"
        using assms(1) Some e mic by (simp add: start_defs)
      then show ?thesis by blast
    qed
    then show ?thesis using catch_message_nonempty by blast
  qed
qed

lemma acquire_frames:
  "teardown_log (state_of (acquireOutputContext env s)) = teardown_log s"
  "teardown_log (state_of (acquireMicrophone env s)) = teardown_log s"
  "teardown_log (state_of (acquireInputContext env s)) = teardown_log s"
  by (simp_all add: teardown_log_def acquireOutputContext_def acquireMicrophone_def
      acquireInputContext_def split: option.splits sum.splits)

section \<open>The status ERROR is never assigned\<close>

lemma handleStop_status: "status (handleStop s) = IDLE"
  by (simp add: handleStop_as_update)

lemma begin_status:
  "status (result_state (startAISession_begin env s)) \<in> {status s, CONNECTING, IDLE}"
  by (simp add: start_defs split: option.splits sum.splits)

lemma toMicrophone_status:
  "status (result_state (startAISession_toMicrophone env s)) \<in> {status s, CONNECTING, IDLE}"
  by (simp add: startAISession_toMicrophone_def acquireOutputContext_def catchStartError_def
      split: option.splits sum.splits)

lemma fromMicrophone_status:
  "status (result_state (startAISession_fromMicrophone env s)) \<in> {status s, IDLE}"
  by (simp add: startAISession_fromMicrophone_def acquireMicrophone_def acquireInputContext_def
      catchStartError_def split: option.splits sum.splits)

lemma settle_status: "status (startAISession_settle r s) \<in> {status s, IDLE}"
  by (simp add: startAISession_settle_def catchStartError_def split: sum.splits)

lemma onopen_status: "status (state_of (onopen s)) = ACTIVE"
  by (simp add: onopen_def Let_def split: option.splits)

lemma step_status: "status (step e s) \<in> {status s, IDLE, CONNECTING, ACTIVE}"
proof (cases e)
  case (ClickSessionButton env)
  then show ?thesis
    using begin_status [of env s] by (auto simp add: handleStop_status)
next
  case (ClickStartSession env)
  then show ?thesis
    using toMicrophone_status [of env s] by auto
next
  case (MicrophoneSettled env)
  then show ?thesis
    using fromMicrophone_status [of env s] by auto
next
  case (ConnectSettled r)
  then show ?thesis using settle_status [of r s] by auto
qed (simp_all add: startScreenShare_def onopen_status onmessage_status onerror_def onclose_def
      handleStop_status onended_def Let_def expireMarker_def split: sum.splits)

lemma step_not_ERROR: "status s \<noteq> ERROR \<Longrightarrow> status (step e s) \<noteq> ERROR"
  using step_status [of e s] by auto

lemma run_not_ERROR: "status s \<noteq> ERROR \<Longrightarrow> status (run s es) \<noteq> ERROR"
  by (induction es arbitrary: s) (simp_all add: step_not_ERROR)

lemma initial_not_ERROR: "status (run initial es) \<noteq> ERROR"
  by (rule run_not_ERROR) (simp add: initial_def)

lemma teardown_log_handleStop:
  "teardown_log (handleStop s) =
     (clearedIntervals s @ held (frameIntervalRef s), closedSessions s @ held (activeSessionRef s),
      stoppedStreams s @ held (screenStreamRef s) @ held (micStreamRef s),
      stoppedSources s @ sourcesRef s)"
  by (simp add: teardown_log_def handleStop_as_update)

text \<open>
  Claim C2, as the code has it. In every state the handler of a transport error sets the error
  message, runs the whole teardown and leaves the status IDLE with every handle released. No
  statement of the handler assigns the status ERROR: the statuses the component passes through
  while the handler runs are the one it had and IDLE. No handler assigns ERROR at all, so no run
  of events from the initial state reaches it.
\<close>

theorem C2_error_tears_down_to_idle:
  "status (onerror s) = IDLE \<and>
   error (onerror s) = Some ''Connection issue detected. Re-syncing...'' \<and>
   frameIntervalRef (onerror s) = None \<and> activeSessionRef (onerror s) = None \<and>
   screenStreamRef (onerror s) = None \<and> micStreamRef (onerror s) = None \<and>
   sourcesRef (onerror s) = [] \<and> nextStartTimeRef (onerror s) = 0 \<and>
   teardown_log (onerror s) =
     (clearedIntervals s @ held (frameIntervalRef s), closedSessions s @ held (activeSessionRef s),
      stoppedStreams s @ held (screenStreamRef s) @ held (micStreamRef s),
      stoppedSources s @ sourcesRef s) \<and>
   last (states_through s onerror_statements) = onerror s \<and>
   set (map status (states_through s onerror_statements)) = {status s, IDLE} \<and>
   status (run initial es) \<noteq> ERROR"
proof -
  have "onerror s = handleStop (s\<lparr>error := Some ''Connection issue detected. Re-syncing...''\<rparr>)"
    by (simp add: onerror_def)
  then have
    "status (onerror s) = IDLE \<and>
     error (onerror s) = Some ''Connection issue detected. Re-syncing...'' \<and>
     frameIntervalRef (onerror s) = None \<and> activeSessionRef (onerror s) = None \<and>
     screenStreamRef (onerror s) = None \<and> micStreamRef (onerror s) = None \<and>
     sourcesRef (onerror s) = [] \<and> nextStartTimeRef (onerror s) = 0"
    by (simp add: handleStop_as_update)
  moreover have "teardown_log (onerror s) =
     (clearedIntervals s @ held (frameIntervalRef s), closedSessions s @ held (activeSessionRef s),
      stoppedStreams s @ held (screenStreamRef s) @ held (micStreamRef s),
      stoppedSources s @ sourcesRef s)"
    by (simp add: onerror_def teardown_log_handleStop)
  ultimately show ?thesis
    using onerror_last [of s] onerror_statuses [of s] initial_not_ERROR [of es] by blast
qed

text \<open>
  Claim C2 as stated fails: from an active session the transport error leads to IDLE, and no
  state on the way has the status ERROR.
\<close>

theorem C2_counterexample:
  "status (run initial active_trace) = ACTIVE \<and>
   status (run initial (active_trace @ [OnError])) = IDLE \<and>
   ERROR \<notin> set (map status (states_through (run initial active_trace) onerror_statements))"
proof -
  have a: "status (run initial active_trace) = ACTIVE" by (rule active_state)
  have b: "status (run initial (active_trace @ [OnError])) = IDLE"
    by (simp add: run_append onerror_def handleStop_status)
  have c: "set (map status (states_through (run initial active_trace) onerror_statements)) = {ACTIVE, IDLE}"
    by (simp only: onerror_statuses a)
  show ?thesis unfolding c using a b by simp
qed

section \<open>Tool calls\<close>

lemma onmessage_no_audio:
  "readAudioData m = Inr [] \<Longrightarrow>
     onmessage env m s = Done (handleToolCall env m (handleInterruption m (routeTranscription env m s)))"
  by (simp add: onmessage_def scheduleAudio_def)

text \<open>
  Claim C5. In every state the message whose only content is the invocation
  \<open>{id: "abc", name: "click_answer", args: {x: 42, y: 17, label: "Submit"}}\<close> runs to its
  end. It appends exactly one marker, with x = 42, y = 17 and label Submit (its identifier is the
  one drawn), schedules the removal of that marker after 4000 ms, and sends exactly one response,
  with id abc, name click_answer and the object \<open>{result: "ok"}\<close>. Nothing else changes.
  What the spec calls the field \<open>result\<close> of a ToolResponse is the field
  \<open>response\<close> of the entry that the code sends.
\<close>

theorem C5_click_answer_round_trip:
  "onmessage env click_submit s =
     Done (s\<lparr>clicks := clicks s @
                [\<lparr>click_x = 42, click_y = 17, click_label = ''Submit'', click_id = randomId env 0\<rparr>],
             markerTimeouts := markerTimeouts s @ [(randomId env 0, 4000)],
             sentToolResponses := sentToolResponses s @
                [\<lparr>fr_id = ''abc'', fr_name = ''click_answer'', fr_response = [(''result'', ''ok'')]\<rparr>]\<rparr>)"
proof -
  have "readAudioData click_submit = Inr []"
    by (simp add: readAudioData_def click_submit_def)
  then show ?thesis
    by (simp add: onmessage_no_audio click_submit_def handleToolCall_def handleInterruption_def
        routeTranscription_def)
qed

lemma count_answers:
  "length (filter (\<lambda>r. fr_id r = i) (map answer fcs)) = length (filter (\<lambda>fc. fc_id fc = i) fcs)"
  by (induction fcs) (simp_all add: answer_def)

lemma onmessage_sent_threw:
  "\<not> completes (onmessage env m s) \<Longrightarrow>
     sentToolResponses (state_of (onmessage env m s)) = sentToolResponses s"
  by (simp add: onmessage_threw scheduleAudio_frame routeTranscription_frame)

lemma onmessage_sent_completed:
  "completes (onmessage env m s) \<Longrightarrow>
     sentToolResponses (state_of (onmessage env m s)) =
       sentToolResponses s @ map answer (filter accepted (calls m))"
  by (simp add: onmessage_completed handleToolCall_sent handleInterruption_frame
      scheduleAudio_frame routeTranscription_frame)

text \<open>
  Where every accepted invocation is answered once. The dispatcher accepts an invocation when
  its loop reaches it and its name is \<open>click_answer\<close>. The responses that the dispatcher
  sends for a message are, in order, one for each accepted invocation, with the invocation's id
  and name; so for every id as many of these responses carry it as accepted invocations do. They
  are the responses of the whole handler when it completes, which it does when the read of the
  audio data does not throw and the decoder does not throw on it.
\<close>

lemma one_response_per_accepted_call:
  "sentToolResponses (handleToolCall env m s) =
     sentToolResponses s @ map answer (filter accepted (calls m)) \<and>
   length (filter (\<lambda>r. fr_id r = i)
      (drop (length (sentToolResponses s)) (sentToolResponses (handleToolCall env m s)))) =
     length (filter (\<lambda>fc. fc_id fc = i) (filter accepted (calls m))) \<and>
   (completes (onmessage env m s) \<longrightarrow>
      sentToolResponses (state_of (onmessage env m s)) =
        sentToolResponses s @ map answer (filter accepted (calls m))) \<and>
   (\<not> completes (onmessage env m s) \<longrightarrow>
      sentToolResponses (state_of (onmessage env m s)) = sentToolResponses s)"
proof -
  have a: "sentToolResponses (handleToolCall env m s) =
     sentToolResponses s @ map answer (filter accepted (calls m))"
    by (rule handleToolCall_sent)
  have b: "length (filter (\<lambda>r. fr_id r = i)
      (drop (length (sentToolResponses s)) (sentToolResponses (handleToolCall env m s)))) =
     length (filter (\<lambda>fc. fc_id fc = i) (filter accepted (calls m)))"
    unfolding a by (simp only: append_eq_conv_conj drop_append drop_all order_refl
        diff_self_eq_0 drop_0 append_Nil count_answers)
  from a b onmessage_sent_completed [of env m s] onmessage_sent_threw [of env m s]
  show ?thesis by blast
qed

lemma one_response_per_accepted_call_example:
  "completes (onmessage (env_at 0) three_calls initial) \<and>
   sentToolResponses (state_of (onmessage (env_at 0) three_calls initial)) =
     [\<lparr>fr_id = ''c1'', fr_name = ''click_answer'', fr_response = [(''result'', ''ok'')]\<rparr>,
      \<lparr>fr_id = ''c3'', fr_name = ''click_answer'', fr_response = [(''result'', ''ok'')]\<rparr>]"
proof -
  have c: "completes (onmessage (env_at 0) three_calls initial)"
    by (simp add: completes_onmessage readAudioData_def three_calls_def)
  have f: "filter accepted (calls three_calls) =
     [\<lparr>fc_id = ''c1'', fc_name = ''click_answer'',
          fc_args = \<lparr>arg_x = 10, arg_y = 20, arg_label = ''A''\<rparr>\<rparr>,
      \<lparr>fc_id = ''c3'', fc_name = ''click_answer'',
          fc_args = \<lparr>arg_x = 30, arg_y = 40, arg_label = ''B''\<rparr>\<rparr>]"
    by (simp add: calls_def three_calls_def accepted_def)
  have i: "sentToolResponses initial = []" by (simp add: initial_def)
  show ?thesis
    using one_response_per_accepted_call [of "env_at 0" three_calls initial "''c3''"] c
    by (simp add: f i answer_def)
qed

lemma throws_without_parts:
  "modelTurn m = Some c \<Longrightarrow> parts c = None \<Longrightarrow> \<not> completes (onmessage env m s)"
  by (simp add: completes_onmessage readAudioData_def)

text \<open>
  Claim C6 fails on the code. Each of the two messages carries one invocation of
  \<open>click_answer\<close>, with id abc. On the first, whose model turn has no parts, the read of
  the audio data throws; on the second the decoder throws. The handler ends there: no response
  is sent and no marker is made, where the claim has exactly one response with id abc.
\<close>

theorem C6_invocation_unanswered_after_throw:
  "filter accepted (calls call_without_parts) =
     [\<lparr>fc_id = ''abc'', fc_name = ''click_answer'',
       fc_args = \<lparr>arg_x = 42, arg_y = 17, arg_label = ''Submit''\<rparr>\<rparr>] \<and>
   \<not> completes (onmessage (env_at 0) call_without_parts initial) \<and>
   sentToolResponses (state_of (onmessage (env_at 0) call_without_parts initial)) = [] \<and>
   clicks (state_of (onmessage (env_at 0) call_without_parts initial)) = [] \<and>
   filter accepted (calls call_with_bad_audio) =
     [\<lparr>fc_id = ''abc'', fc_name = ''click_answer'',
       fc_args = \<lparr>arg_x = 42, arg_y = 17, arg_label = ''Submit''\<rparr>\<rparr>] \<and>
   outputAudioContextRef (run initial active_trace) = Some 10 \<and>
   \<not> completes (onmessage (env_at 0) call_with_bad_audio (run initial active_trace)) \<and>
   sentToolResponses (state_of (onmessage (env_at 0) call_with_bad_audio (run initial active_trace))) = [] \<and>
   clicks (state_of (onmessage (env_at 0) call_with_bad_audio (run initial active_trace))) = []"
  by code_simp

section \<open>Interruption\<close>

lemma scheduleAudio_sources:
  "set (sourcesRef s) \<subseteq> set (sourcesRef (state_of (scheduleAudio env m s)))"
  by (auto simp add: scheduleAudio_def Let_def split: sum.splits)

lemma handleInterruption_clears:
  "interrupted m \<Longrightarrow>
     sourcesRef (handleInterruption m s) = [] \<and>
     nextStartTimeRef (handleInterruption m s) = 0 \<and>
     \<not> isAiSpeaking (handleInterruption m s) \<and>
     stoppedSources (handleInterruption m s) = stoppedSources s @ sourcesRef s"
  by (simp add: handleInterruption_def stopAllSources_def)

text \<open>
  Where an interruption clears the playback. In every state, whatever the playback set holds,
  the interruption block of a message with the interruption flag calls \<open>stop()\<close> on
  every node of the set and leaves the set empty, \<open>nextStartTimeRef\<close> at 0 and
  \<open>isAiSpeaking\<close> false. So does the whole handler of such a message when it completes,
  also when the same message brought a chunk that was scheduled just before.
\<close>

lemma interruption_clears_playback:
  assumes "interrupted m"
  shows "sourcesRef (handleInterruption m s) = [] \<and>
     nextStartTimeRef (handleInterruption m s) = 0 \<and>
     \<not> isAiSpeaking (handleInterruption m s) \<and>
     stoppedSources (handleInterruption m s) = stoppedSources s @ sourcesRef s \<and>
     (completes (onmessage env m s) \<longrightarrow>
        sourcesRef (state_of (onmessage env m s)) = [] \<and>
        nextStartTimeRef (state_of (onmessage env m s)) = 0 \<and>
        \<not> isAiSpeaking (state_of (onmessage env m s)) \<and>
        set (sourcesRef s) \<subseteq> set (stoppedSources (state_of (onmessage env m s))))"
proof -
  have block: "sourcesRef (handleInterruption m s') = [] \<and>
     nextStartTimeRef (handleInterruption m s') = 0 \<and>
     \<not> isAiSpeaking (handleInterruption m s') \<and>
     stoppedSources (handleInterruption m s') = stoppedSources s' @ sourcesRef s'" for s'
    using assms by (rule handleInterruption_clears)
  have "set (sourcesRef s) \<subseteq> set (sourcesRef (state_of (scheduleAudio env m (routeTranscription env m s))))"
    using scheduleAudio_sources [of "routeTranscription env m s" env m]
    by (simp add: routeTranscription_frame)
  then have handler: "completes (onmessage env m s) \<Longrightarrow>
        sourcesRef (state_of (onmessage env m s)) = [] \<and>
        nextStartTimeRef (state_of (onmessage env m s)) = 0 \<and>
        \<not> isAiSpeaking (state_of (onmessage env m s)) \<and>
        set (sourcesRef s) \<subseteq> set (stoppedSources (state_of (onmessage env m s)))"
    using block [of "state_of (scheduleAudio env m (routeTranscription env m s))"]
    by (auto simp add: onmessage_completed handleToolCall_frame)
  from block [of s] handler show ?thesis by blast
qed

section \<open>Teardown\<close>

text \<open>
  Claim C8. \<open>handleStop\<close> is a total function of the state: it uses each handle under its
  null check only, and what a \<open>stop()\<close> throws is caught. Run twice it gives what one run
  gives, the second run finding nothing to release. Run on the initial state, where every handle
  is null, it changes nothing. After it the status is IDLE, the frame timer is cleared, the
  session closed, both streams stopped, every playback node stopped and the set empty, and
  \<open>nextStartTimeRef\<close> is 0.
\<close>

theorem C8_teardown_idempotent_total:
  "handleStop (handleStop s) = handleStop s \<and>
   handleStop initial = initial \<and>
   status (handleStop s) = IDLE \<and>
   frameIntervalRef (handleStop s) = None \<and>
   clearedIntervals (handleStop s) = clearedIntervals s @ held (frameIntervalRef s) \<and>
   activeSessionRef (handleStop s) = None \<and>
   closedSessions (handleStop s) = closedSessions s @ held (activeSessionRef s) \<and>
   screenStreamRef (handleStop s) = None \<and> micStreamRef (handleStop s) = None \<and>
   stoppedStreams (handleStop s) =
     stoppedStreams s @ held (screenStreamRef s) @ held (micStreamRef s) \<and>
   sourcesRef (handleStop s) = [] \<and>
   stoppedSources (handleStop s) = stoppedSources s @ sourcesRef s \<and>
   nextStartTimeRef (handleStop s) = 0 \<and>
   teardown_log (handleStop (handleStop s)) = teardown_log (handleStop s)"
proof -
  have idem: "handleStop (handleStop s) = handleStop s"
    by (simp add: handleStop_as_update held_def)
  have init: "handleStop initial = initial"
    by (simp add: handleStop_as_update held_def initial_def)
  have rest: "status (handleStop s) = IDLE \<and>
   frameIntervalRef (handleStop s) = None \<and>
   clearedIntervals (handleStop s) = clearedIntervals s @ held (frameIntervalRef s) \<and>
   activeSessionRef (handleStop s) = None \<and>
   closedSessions (handleStop s) = closedSessions s @ held (activeSessionRef s) \<and>
   screenStreamRef (handleStop s) = None \<and> micStreamRef (handleStop s) = None \<and>
   stoppedStreams (handleStop s) =
     stoppedStreams s @ held (screenStreamRef s) @ held (micStreamRef s) \<and>
   sourcesRef (handleStop s) = [] \<and>
   stoppedSources (handleStop s) = stoppedSources s @ sourcesRef s \<and>
   nextStartTimeRef (handleStop s) = 0"
    by (simp add: handleStop_as_update)
  from idem init rest show ?thesis by simp
qed

text \<open>
  Claim C10. \<open>handleStop\<close> changes only the status, the three flags,
  \<open>nextStartTimeRef\<close>, the references to the timer, the session, the streams and the
  playback nodes, and the logs of what it released. The error message, the transcript, the
  markers and their pending timeouts are as before. After a transport error the message that
  \<open>onerror\<close> set is still there. A marker outlives the stop and is removed by its own
  timeout.
\<close>

theorem C10_teardown_frame:
  "handleStop s =
     s\<lparr>status := IDLE, isScreenShared := False, isAiSpeaking := False, isCapturing := False,
       nextStartTimeRef := 0, frameIntervalRef := None, activeSessionRef := None,
       screenStreamRef := None, micStreamRef := None, sourcesRef := [],
       clearedIntervals := clearedIntervals (handleStop s),
       closedSessions := closedSessions (handleStop s),
       stoppedStreams := stoppedStreams (handleStop s),
       stoppedSources := stoppedSources (handleStop s)\<rparr> \<and>
   error (handleStop s) = error s \<and>
   transcriptions (handleStop s) = transcriptions s \<and>
   clicks (handleStop s) = clicks s \<and>
   markerTimeouts (handleStop s) = markerTimeouts s \<and>
   error (onerror s) = Some ''Connection issue detected. Re-syncing...'' \<and>
   transcriptions (onerror s) = transcriptions s \<and>
   clicks (onerror s) = clicks s \<and>
   markerTimeouts (onerror s) = markerTimeouts s \<and>
   clicks (expireMarker i (handleStop s)) = filter (\<lambda>c. click_id c \<noteq> i) (clicks s)"
proof -
  have a: "handleStop s =
     s\<lparr>status := IDLE, isScreenShared := False, isAiSpeaking := False, isCapturing := False,
       nextStartTimeRef := 0, frameIntervalRef := None, activeSessionRef := None,
       screenStreamRef := None, micStreamRef := None, sourcesRef := [],
       clearedIntervals := clearedIntervals (handleStop s),
       closedSessions := closedSessions (handleStop s),
       stoppedStreams := stoppedStreams (handleStop s),
       stoppedSources := stoppedSources (handleStop s)\<rparr>"
    by (simp add: handleStop_as_update)
  have b: "error (handleStop s') = error s' \<and>
   transcriptions (handleStop s') = transcriptions s' \<and>
   clicks (handleStop s') = clicks s' \<and>
   markerTimeouts (handleStop s') = markerTimeouts s'" for s'
    by (simp add: handleStop_as_update)
  have c: "clicks (expireMarker i (handleStop s)) = filter (\<lambda>c. click_id c \<noteq> i) (clicks s)"
    by (simp add: expireMarker_def b)
  from a b [of s] b [of "s\<lparr>error := Some ''Connection issue detected. Re-syncing...''\<rparr>"] c
  show ?thesis by (simp add: onerror_def)
qed

section \<open>Playback without overlap\<close>

lemma active_context: "outputAudioContextRef (run initial active_trace) = Some 10"
  "nextStartTimeRef (run initial active_trace) = 0"
  "startedSources (run initial active_trace) = []"
  "sourcesRef (run initial active_trace) = []"
  "nextSourceId (run initial active_trace) = 0"
  "stoppedSources (run initial active_trace) = []"
  by (simp_all add: active_trace_def initial_def env_ok_def startScreenShare_def start_defs
      onopen_def startAISession_settle_def)

lemma env_at_simps:
  "currentTime (env_at t) = t"
  "decodeAudioData (env_at t) ''ab'' = Inr \<lparr>ab_length = AUDIO_SAMPLE_RATE * 2, ab_sampleRate = AUDIO_SAMPLE_RATE\<rparr>"
  "decodeAudioData (env_at t) ''abc'' = Inr \<lparr>ab_length = AUDIO_SAMPLE_RATE * 3, ab_sampleRate = AUDIO_SAMPLE_RATE\<rparr>"
  "decodeAudioData (env_at t) ''a'' = Inr \<lparr>ab_length = AUDIO_SAMPLE_RATE * 1, ab_sampleRate = AUDIO_SAMPLE_RATE\<rparr>"
  by (simp_all add: env_at_def)

lemma three_chunks_deliver: "list_all delivers_chunk three_chunks"
  by (simp add: three_chunks_def delivers_chunk_def audio_message_def readAudioData_def
      audio_turn_def env_at_simps)

lemma chunk_durations:
  "chunk_duration (env_at t, audio_message ''ab'') = 2"
  "chunk_duration (env_at t, audio_message ''abc'') = 3"
  "chunk_duration (env_at t, audio_message ''a'') = 1"
  by (simp_all add: chunk_duration_def audio_message_def readAudioData_def audio_turn_def
      env_at_simps duration_def AUDIO_SAMPLE_RATE_def)

lemmas message_defs = onmessage_def scheduleAudio_def routeTranscription_def
  handleInterruption_def handleToolCall_def stopAllSources_def

lemma playing_state:
  "startedSources (run (run initial active_trace) (chunk_events three_chunks)) =
     [(0, 5, 2), (1, 7, 3), (2, 20, 1)]"
  "nextStartTimeRef (run (run initial active_trace) (chunk_events three_chunks)) = 21"
  "sourcesRef (run (run initial active_trace) (chunk_events three_chunks)) = [0, 1, 2]"
  "stoppedSources (run (run initial active_trace) (chunk_events three_chunks)) = []"
  "isAiSpeaking (run (run initial active_trace) (chunk_events three_chunks))"
  "outputAudioContextRef (run (run initial active_trace) (chunk_events three_chunks)) = Some 10"
  by (simp_all add: chunk_events_def three_chunks_def audio_message_def message_defs
      readAudioData_def audio_turn_def
      active_context env_at_simps duration_def AUDIO_SAMPLE_RATE_def Let_def)

lemma new_slots_playing:
  "new_slots (run initial active_trace) (run (run initial active_trace) (chunk_events three_chunks)) =
     [(0, 5, 2), (1, 7, 3), (2, 20, 1)]"
  by (simp add: new_slots_def playing_state active_context)

lemma nextStartTime_prefix_mono:
  assumes "list_all delivers_chunk ems" and "k < length ems"
  shows "nextStartTimeRef (run s (chunk_events (take k ems))) \<le>
         nextStartTimeRef (run s (chunk_events (take (Suc k) ems)))"
proof -
  have ni: "\<not> interrupted (snd (ems ! k))"
    using assms by (simp add: list_all_length delivers_chunk_def)
  have "chunk_events (take (Suc k) ems) =
      chunk_events (take k ems) @ [OnMessage (fst (ems ! k)) (snd (ems ! k))]"
    using assms(2) by (simp add: chunk_events_def take_Suc_conv_app_nth)
  then show ?thesis
    using onmessage_nextStartTime_mono [OF ni]
    by (simp add: run_append)
qed

text \<open>
  Claim C4. Messages reach the component at arbitrary readings of the output clock, each with an
  audio chunk that decodes and none with an interruption flag, while an output context is
  present. Every chunk gets one slot, of the chunk's duration. The slot starts no earlier than the
  clock reading of its message. The next slot starts no earlier than the slot before it ends, its
  start plus its duration. \<open>nextStartTimeRef\<close> does not decrease from one chunk to the
  next, nor over any single message without an interruption flag.
\<close>

theorem C4_scheduler_no_overlap:
  assumes "outputAudioContextRef s \<noteq> None" and "list_all delivers_chunk ems"
  shows "length (new_slots s (run s (chunk_events ems))) = length ems \<and>
    (\<forall>i < length ems.
        currentTime (fst (ems ! i)) \<le> start_time (new_slots s (run s (chunk_events ems)) ! i) \<and>
        slot_duration (new_slots s (run s (chunk_events ems)) ! i) = chunk_duration (ems ! i)) \<and>
    (\<forall>i. Suc i < length ems \<longrightarrow>
        start_time (new_slots s (run s (chunk_events ems)) ! i) +
          slot_duration (new_slots s (run s (chunk_events ems)) ! i)
        \<le> start_time (new_slots s (run s (chunk_events ems)) ! Suc i)) \<and>
    (\<forall>k < length ems.
        nextStartTimeRef (run s (chunk_events (take k ems))) \<le>
        nextStartTimeRef (run s (chunk_events (take (Suc k) ems)))) \<and>
    nextStartTimeRef s \<le> nextStartTimeRef (run s (chunk_events ems)) \<and>
    (\<not> interrupted m \<longrightarrow>
        nextStartTimeRef s \<le> nextStartTimeRef (state_of (onmessage env m s)))"
proof -
  have w: "scheduled_well s ems"
    using assms by (rule scheduled_well_all)
  have a: "length (new_slots s (run s (chunk_events ems))) = length ems"
    using w unfolding scheduled_well_def Let_def by blast
  have b: "\<forall>i < length ems.
        currentTime (fst (ems ! i)) \<le> start_time (new_slots s (run s (chunk_events ems)) ! i) \<and>
        slot_duration (new_slots s (run s (chunk_events ems)) ! i) = chunk_duration (ems ! i)"
    using w unfolding scheduled_well_def Let_def by blast
  have c: "\<forall>i. Suc i < length ems \<longrightarrow>
        start_time (new_slots s (run s (chunk_events ems)) ! i) +
          slot_duration (new_slots s (run s (chunk_events ems)) ! i)
        \<le> start_time (new_slots s (run s (chunk_events ems)) ! Suc i)"
    using w unfolding scheduled_well_def Let_def by blast
  have d: "\<forall>k < length ems.
        nextStartTimeRef (run s (chunk_events (take k ems))) \<le>
        nextStartTimeRef (run s (chunk_events (take (Suc k) ems)))"
    using nextStartTime_prefix_mono [OF assms(2)] by blast
  have e: "nextStartTimeRef s \<le> nextStartTimeRef (run s (chunk_events ems))"
    using w unfolding scheduled_well_def Let_def by blast
  have f: "\<not> interrupted m \<longrightarrow>
        nextStartTimeRef s \<le> nextStartTimeRef (state_of (onmessage env m s))"
    using onmessage_nextStartTime_mono by blast
  from a b c d e f show ?thesis by blast
qed

theorem C4_scheduler_no_overlap_witness:
  "outputAudioContextRef (run initial active_trace) \<noteq> None \<and>
   list_all delivers_chunk three_chunks \<and>
   new_slots (run initial active_trace) (run (run initial active_trace) (chunk_events three_chunks)) =
     [(0, 5, 2), (1, 7, 3), (2, 20, 1)] \<and>
   start_time (new_slots (run initial active_trace)
       (run (run initial active_trace) (chunk_events three_chunks)) ! 0) +
     slot_duration (new_slots (run initial active_trace)
       (run (run initial active_trace) (chunk_events three_chunks)) ! 0)
     \<le> start_time (new_slots (run initial active_trace)
       (run (run initial active_trace) (chunk_events three_chunks)) ! Suc 0) \<and>
   currentTime (fst (three_chunks ! 2))
     \<le> start_time (new_slots (run initial active_trace)
       (run (run initial active_trace) (chunk_events three_chunks)) ! 2) \<and>
   nextStartTimeRef (run initial active_trace)
     \<le> nextStartTimeRef (run (run initial active_trace) (chunk_events three_chunks))"
proof -
  have h1: "outputAudioContextRef (run initial active_trace) \<noteq> None"
    by (simp add: active_context)
  have h2: "list_all delivers_chunk three_chunks"
    by (rule three_chunks_deliver)
  have len: "length three_chunks = 3" by (simp add: three_chunks_def)
  note t = C4_scheduler_no_overlap [OF h1 h2, of interruption "env_at 0"]
  from t have "Suc 0 < length three_chunks \<longrightarrow>
     start_time (new_slots (run initial active_trace)
       (run (run initial active_trace) (chunk_events three_chunks)) ! 0) +
     slot_duration (new_slots (run initial active_trace)
       (run (run initial active_trace) (chunk_events three_chunks)) ! 0)
     \<le> start_time (new_slots (run initial active_trace)
       (run (run initial active_trace) (chunk_events three_chunks)) ! Suc 0)"
    by blast
  then have a: "start_time (new_slots (run initial active_trace)
       (run (run initial active_trace) (chunk_events three_chunks)) ! 0) +
     slot_duration (new_slots (run initial active_trace)
       (run (run initial active_trace) (chunk_events three_chunks)) ! 0)
     \<le> start_time (new_slots (run initial active_trace)
       (run (run initial active_trace) (chunk_events three_chunks)) ! Suc 0)"
    by (simp add: len)
  from t have "2 < length three_chunks \<longrightarrow> currentTime (fst (three_chunks ! 2))
     \<le> start_time (new_slots (run initial active_trace)
       (run (run initial active_trace) (chunk_events three_chunks)) ! 2)"
    by blast
  then have b: "currentTime (fst (three_chunks ! 2))
     \<le> start_time (new_slots (run initial active_trace)
       (run (run initial active_trace) (chunk_events three_chunks)) ! 2)"
    by (simp add: len)
  from t have c: "nextStartTimeRef (run initial active_trace)
     \<le> nextStartTimeRef (run (run initial active_trace) (chunk_events three_chunks))"
    by blast
  from h1 h2 new_slots_playing a b c show ?thesis by blast
qed

lemma interruption_clears_playback_example:
  "interrupted interruption \<and>
   completes (onmessage (env_at 30) interruption
      (run (run initial active_trace) (chunk_events three_chunks))) \<and>
   sourcesRef (state_of (onmessage (env_at 30) interruption
      (run (run initial active_trace) (chunk_events three_chunks)))) = [] \<and>
   nextStartTimeRef (state_of (onmessage (env_at 30) interruption
      (run (run initial active_trace) (chunk_events three_chunks)))) = 0 \<and>
   \<not> isAiSpeaking (state_of (onmessage (env_at 30) interruption
      (run (run initial active_trace) (chunk_events three_chunks)))) \<and>
   stoppedSources (handleInterruption interruption
      (run (run initial active_trace) (chunk_events three_chunks))) = [0, 1, 2]"
proof -
  have h: "interrupted interruption" by (simp add: interruption_def)
  have c: "completes (onmessage (env_at 30) interruption
      (run (run initial active_trace) (chunk_events three_chunks)))"
    by (simp add: completes_onmessage readAudioData_def interruption_def)
  from interruption_clears_playback [OF h, of
      "run (run initial active_trace) (chunk_events three_chunks)" "env_at 30"] h c
  show ?thesis by (simp add: playing_state)
qed

text \<open>
  Claim C7 fails on the code. Three slots are scheduled and playing. A message arrives with the
  interruption flag and with audio on which the decoder throws, or with a model turn without
  parts, on which the read of the audio data throws. The handler ends before its interruption
  block: the playback set still holds the three nodes, none was stopped,
  \<open>nextStartTimeRef\<close> is not 0 and \<open>isAiSpeaking\<close> is still true, where the claim
  has the set empty, the clock at 0 and the speaking signal off.
\<close>

theorem C7_interruption_lost_after_throw:
  "sourcesRef (run (run initial active_trace) (chunk_events three_chunks)) = [0, 1, 2] \<and>
   interrupted interruption_with_bad_audio \<and>
   \<not> completes (onmessage (env_at 30) interruption_with_bad_audio
      (run (run initial active_trace) (chunk_events three_chunks))) \<and>
   sourcesRef (state_of (onmessage (env_at 30) interruption_with_bad_audio
      (run (run initial active_trace) (chunk_events three_chunks)))) = [0, 1, 2] \<and>
   stoppedSources (state_of (onmessage (env_at 30) interruption_with_bad_audio
      (run (run initial active_trace) (chunk_events three_chunks)))) = [] \<and>
   nextStartTimeRef (state_of (onmessage (env_at 30) interruption_with_bad_audio
      (run (run initial active_trace) (chunk_events three_chunks)))) = 30 \<and>
   isAiSpeaking (state_of (onmessage (env_at 30) interruption_with_bad_audio
      (run (run initial active_trace) (chunk_events three_chunks)))) \<and>
   interrupted interruption_without_parts \<and>
   \<not> completes (onmessage (env_at 30) interruption_without_parts
      (run (run initial active_trace) (chunk_events three_chunks))) \<and>
   sourcesRef (state_of (onmessage (env_at 30) interruption_without_parts
      (run (run initial active_trace) (chunk_events three_chunks)))) = [0, 1, 2] \<and>
   stoppedSources (state_of (onmessage (env_at 30) interruption_without_parts
      (run (run initial active_trace) (chunk_events three_chunks)))) = [] \<and>
   nextStartTimeRef (state_of (onmessage (env_at 30) interruption_without_parts
      (run (run initial active_trace) (chunk_events three_chunks)))) = 21 \<and>
   isAiSpeaking (state_of (onmessage (env_at 30) interruption_without_parts
      (run (run initial active_trace) (chunk_events three_chunks))))"
proof -
  define s where "s = run (run initial active_trace) (chunk_events three_chunks)"
  have p: "sourcesRef s = [0, 1, 2]" "stoppedSources s = []" "nextStartTimeRef s = 21"
    "isAiSpeaking s"
    by (simp_all add: s_def playing_state)
  have ctx: "outputAudioContextRef s = Some 10"
    by (simp add: s_def playing_state)
  have bad: "readAudioData interruption_with_bad_audio = Inr ''bad''"
    "decodeAudioData (env_at 30) ''bad'' = Inl ''DecodeError''"
    "interrupted interruption_with_bad_audio"
    by (simp_all add: readAudioData_def interruption_with_bad_audio_def audio_turn_def env_at_def)
  have none: "readAudioData interruption_without_parts = Inl ''TypeError''"
    "interrupted interruption_without_parts"
    by (simp_all add: readAudioData_def interruption_without_parts_def)
  have a: "onmessage (env_at 30) interruption_with_bad_audio s =
      Threw ''DecodeError'' (s\<lparr>isAiSpeaking := True, nextStartTimeRef := 30\<rparr>)"
    using bad ctx p
    by (simp add: onmessage_def scheduleAudio_def routeTranscription_def Let_def
        interruption_with_bad_audio_def env_at_simps)
  have b: "onmessage (env_at 30) interruption_without_parts s = Threw ''TypeError'' s"
    using none
    by (simp add: onmessage_def scheduleAudio_def routeTranscription_def
        interruption_without_parts_def)
  show ?thesis
    unfolding s_def [symmetric] a b using p bad(3) none(2) by simp
qed

section \<open>One session at a time\<close>

lemma teardown_log_andThen:
  assumes "\<And>s. teardown_log (state_of (f s)) = teardown_log s"
  shows "teardown_log (state_of (andThen r f)) = teardown_log (state_of r)"
  using assms by (cases r) simp_all

lemma begin_teardown_log:
  "teardown_log (result_state (startAISession_begin env s)) = teardown_log s"
proof -
  let ?r = "andThen (andThen (acquireOutputContext env (s\<lparr>status := CONNECTING, error := None\<rparr>))
                         (acquireMicrophone env)) (acquireInputContext env)"
  have "teardown_log (state_of ?r) = teardown_log (s\<lparr>status := CONNECTING, error := None\<rparr>)"
    by (simp add: teardown_log_andThen acquire_frames)
  then have r: "teardown_log (state_of ?r) = teardown_log s"
    by (simp add: teardown_log_def)
  show ?thesis
  proof (cases "API_KEY env = []")
    case True
    then show ?thesis by (simp add: startAISession_begin_def teardown_log_def)
  next
    case False
    then show ?thesis
      using r by (cases ?r) (simp_all add: startAISession_begin_def catchStartError_def teardown_log_def)
  qed
qed

lemma settle_teardown_log:
  "teardown_log (startAISession_settle r s) = teardown_log s"
  by (simp add: startAISession_settle_def catchStartError_def teardown_log_def split: sum.splits)

lemma acquire_live_refs:
  "live_refs (state_of (acquireOutputContext env s)) = live_refs s"
  "live_refs (state_of (acquireMicrophone env s)) = live_refs s"
  "live_refs (state_of (acquireInputContext env s)) = live_refs s"
  by (simp_all add: live_refs_def acquireOutputContext_def acquireMicrophone_def
      acquireInputContext_def split: option.splits sum.splits)

lemma live_refs_andThen:
  assumes "\<And>s. live_refs (state_of (f s)) = live_refs s"
  shows "live_refs (state_of (andThen r f)) = live_refs (state_of r)"
  using assms by (cases r) simp_all

lemma begin_live_refs:
  "live_refs (result_state (startAISession_begin env s)) = live_refs s"
proof -
  let ?r = "andThen (andThen (acquireOutputContext env (s\<lparr>status := CONNECTING, error := None\<rparr>))
                         (acquireMicrophone env)) (acquireInputContext env)"
  have "live_refs (state_of ?r) = live_refs (s\<lparr>status := CONNECTING, error := None\<rparr>)"
    by (simp add: live_refs_andThen acquire_live_refs)
  then have r: "live_refs (state_of ?r) = live_refs s"
    by (simp add: live_refs_def)
  show ?thesis
  proof (cases "API_KEY env = []")
    case True
    then show ?thesis by (simp add: startAISession_begin_def live_refs_def)
  next
    case False
    then show ?thesis
      using r by (cases ?r) (simp_all add: startAISession_begin_def catchStartError_def live_refs_def)
  qed
qed

text \<open>
  How the code keeps sessions apart. Starting releases nothing: neither part of
  \<open>startAISession\<close> clears a timer, closes a session, stops a stream or stops a playback
  node. The button does it: while the status is not IDLE a click runs \<open>handleStop\<close>, and
  only in status IDLE it starts a session. \<open>handleStop\<close> releases what the references
  hold when it runs, and leaves them null.
\<close>

lemma stop_before_start:
  "teardown_log (result_state (startAISession_begin env s)) = teardown_log s \<and>
   live_refs (result_state (startAISession_begin env s)) = live_refs s \<and>
   teardown_log (startAISession_settle r s) = teardown_log s \<and>
   frameIntervalRef (startAISession_settle r s) = frameIntervalRef s \<and>
   sourcesRef (startAISession_settle r s) = sourcesRef s \<and>
   (isScreenShared s \<and> status s \<noteq> IDLE \<longrightarrow> step (ClickSessionButton env) s = handleStop s) \<and>
   (isScreenShared s \<and> status s = IDLE \<longrightarrow>
      step (ClickSessionButton env) s = result_state (startAISession_begin env s)) \<and>
   live_refs (handleStop s) = (None, None, []) \<and>
   screenStreamRef (handleStop s) = None \<and> micStreamRef (handleStop s) = None \<and>
   teardown_log (handleStop s) =
     (clearedIntervals s @ held (frameIntervalRef s), closedSessions s @ held (activeSessionRef s),
      stoppedStreams s @ held (screenStreamRef s) @ held (micStreamRef s),
      stoppedSources s @ sourcesRef s)"
proof -
  have a: "frameIntervalRef (startAISession_settle r s) = frameIntervalRef s \<and>
   sourcesRef (startAISession_settle r s) = sourcesRef s"
    by (simp add: startAISession_settle_def catchStartError_def split: sum.splits)
  have b: "live_refs (handleStop s) = (None, None, []) \<and>
   screenStreamRef (handleStop s) = None \<and> micStreamRef (handleStop s) = None"
    by (simp add: live_refs_def handleStop_as_update)
  from a b begin_teardown_log [of env s] begin_live_refs [of env s] settle_teardown_log [of r s]
    teardown_log_handleStop [of s]
  show ?thesis by simp
qed

lemma c3_runs:
  "status (run initial [ClickShareScreen (Inr 1), ClickSessionButton env_ok]) = CONNECTING"
  "status (run initial stopped_while_connecting) = IDLE"
  "activeSessionRef (run initial first_connected) = Some 30"
  "frameIntervalRef (run initial first_connected) = Some 1"
  "activeSessionRef (run initial second_connected) = Some 31"
  "frameIntervalRef (run initial second_connected) = Some 2"
  "closedSessions (run initial second_connected) = []"
  "clearedIntervals (run initial second_connected) = []"
  "status (run initial second_connected) = ACTIVE"
  by code_simp+

text \<open>
  \<open>startAISession\<close> to the connection is its two steps, one after the other.
\<close>

lemma startAISession_begin_in_steps:
  "startAISession_begin env s =
     (case startAISession_toMicrophone env s of
        Returned s' \<Rightarrow> Returned s'
      | Awaiting s' \<Rightarrow> startAISession_fromMicrophone env s')"
proof (cases "API_KEY env = []")
  case True
  then show ?thesis
    by (simp add: startAISession_begin_def startAISession_toMicrophone_def)
next
  case False
  then show ?thesis
    by (cases "acquireOutputContext env (s\<lparr>status := CONNECTING, error := None\<rparr>)")
      (simp_all add: startAISession_begin_def startAISession_toMicrophone_def
        startAISession_fromMicrophone_def)
qed

text \<open>
  Claim C3 fails on the code. A session is started and stopped while it still connects: the
  status was CONNECTING, so the click ran \<open>handleStop\<close>, but the handle of the session is
  stored only when the connection has settled, so \<open>handleStop\<close> found nothing to close.
  The status is IDLE again; the screen is shared again and a second session is started. Then both
  connections open. Two sessions are live: session 30 is never closed and timer 1 never cleared,
  while session 31 and timer 2 run beside them, where the claim has the prior session torn down
  by the time the new one starts.
\<close>

theorem C3_two_sessions_after_stop_while_connecting:
  "status (run initial [ClickShareScreen (Inr 1), ClickSessionButton env_ok]) = CONNECTING \<and>
   status (run initial stopped_while_connecting) = IDLE \<and>
   activeSessionRef (run initial first_connected) = Some 30 \<and>
   frameIntervalRef (run initial first_connected) = Some 1 \<and>
   status (run initial second_connected) = ACTIVE \<and>
   activeSessionRef (run initial second_connected) = Some 31 \<and>
   frameIntervalRef (run initial second_connected) = Some 2 \<and>
   30 \<notin> set (closedSessions (run initial second_connected)) \<and>
   1 \<notin> set (clearedIntervals (run initial second_connected))"
  unfolding c3_runs by simp

text \<open>
  The same miss when the stop comes while \<open>getUserMedia\<close> is pending: the stop finds no
  microphone stream and no session, and afterwards the stream is stored, the connection opens
  and the session is ACTIVE, with a microphone stream that was never stopped.
\<close>

lemma stop_while_microphone_pending:
  "status (run initial [ClickShareScreen (Inr 1), ClickStartSession env_ok, ClickSessionButton env_ok])
     = IDLE"
  "status (run initial stopped_at_microphone) = ACTIVE"
  "activeSessionRef (run initial stopped_at_microphone) = Some 30"
  "micStreamRef (run initial stopped_at_microphone) = Some 20"
  "stoppedStreams (run initial stopped_at_microphone) = [1]"
  "closedSessions (run initial stopped_at_microphone) = []"
  by code_simp+

section \<open>A start that fails\<close>

text \<open>
  Claim C9. A start is requested in status IDLE. If the API key is absent, or the output audio
  context or the microphone is not acquired, \<open>startAISession\<close> returns before it
  connects: the status is IDLE and a non-empty error message is set, while the frame timer, the
  playback set, \<open>nextStartTimeRef\<close>, the transcript and the markers with their timeouts
  are as before. The only other field that can differ is the reference to the output audio
  context, which a start creates when there is none, before it asks for the microphone.
\<close>

theorem C9_failed_start_leaves_idle:
  assumes "status s = IDLE" and "API_KEY env = [] \<or> acquisition_fails env s"
  shows "\<exists>msg c. msg \<noteq> [] \<and>
      startAISession_begin env s = Returned (s\<lparr>error := Some msg, outputAudioContextRef := c\<rparr>) \<and>
      status (result_state (startAISession_begin env s)) = IDLE \<and>
      error (result_state (startAISession_begin env s)) = Some msg \<and>
      frameIntervalRef (result_state (startAISession_begin env s)) = frameIntervalRef s \<and>
      sourcesRef (result_state (startAISession_begin env s)) = sourcesRef s \<and>
      nextStartTimeRef (result_state (startAISession_begin env s)) = nextStartTimeRef s \<and>
      transcriptions (result_state (startAISession_begin env s)) = transcriptions s \<and>
      clicks (result_state (startAISession_begin env s)) = clicks s \<and>
      markerTimeouts (result_state (startAISession_begin env s)) = markerTimeouts s"
proof -
  have "\<exists>msg c. msg \<noteq> [] \<and>
      startAISession_begin env s = Returned (s\<lparr>error := Some msg, outputAudioContextRef := c\<rparr>)"
  proof (cases "API_KEY env = []")
    case True
    have "s\<lparr>error := Some ''API Key is missing from the environment.''\<rparr> =
        s\<lparr>error := Some ''API Key is missing from the environment.'',
          outputAudioContextRef := outputAudioContextRef s\<rparr>"
      by simp
    then have "startAISession_begin env s =
        Returned (s\<lparr>error := Some ''API Key is missing from the environment.'',
          outputAudioContextRef := outputAudioContextRef s\<rparr>)"
      using begin_missing_key [OF True, of s] by simp
    moreover have "''API Key is missing from the environment.'' \<noteq> []" by simp
    ultimately show ?thesis by blast
  next
    case False
    with assms(2) have f: "acquisition_fails env s" by simp
    from begin_acquisition_fails [OF False f] obtain msg c where
      m: "msg \<noteq> []" and
      r: "startAISession_begin env s =
            Returned (s\<lparr>status := IDLE, error := Some msg, outputAudioContextRef := c\<rparr>)"
      by blast
    have "s\<lparr>status := IDLE, error := Some msg, outputAudioContextRef := c\<rparr> =
          s\<lparr>error := Some msg, outputAudioContextRef := c\<rparr>"
      using assms(1) by simp
    with m r show ?thesis by metis
  qed
  then obtain msg c where m: "msg \<noteq> []" and
    r: "startAISession_begin env s = Returned (s\<lparr>error := Some msg, outputAudioContextRef := c\<rparr>)"
    by blast
  have "status (result_state (startAISession_begin env s)) = IDLE \<and>
      error (result_state (startAISession_begin env s)) = Some msg \<and>
      frameIntervalRef (result_state (startAISession_begin env s)) = frameIntervalRef s \<and>
      sourcesRef (result_state (startAISession_begin env s)) = sourcesRef s \<and>
      nextStartTimeRef (result_state (startAISession_begin env s)) = nextStartTimeRef s \<and>
      transcriptions (result_state (startAISession_begin env s)) = transcriptions s \<and>
      clicks (result_state (startAISession_begin env s)) = clicks s \<and>
      markerTimeouts (result_state (startAISession_begin env s)) = markerTimeouts s"
    using assms(1) by (simp add: r)
  with m r show ?thesis by blast
qed

theorem C9_failed_start_leaves_idle_witness:
  "status (run initial [ClickShareScreen (Inr 1)]) = IDLE \<and>
   API_KEY env_no_key = [] \<and>
   acquisition_fails env_mic_denied (run initial [ClickShareScreen (Inr 1)]) \<and>
   status (step (ClickSessionButton env_no_key) (run initial [ClickShareScreen (Inr 1)])) = IDLE \<and>
   error (step (ClickSessionButton env_no_key) (run initial [ClickShareScreen (Inr 1)])) =
     Some ''API Key is missing from the environment.'' \<and>
   status (step (ClickSessionButton env_mic_denied) (run initial [ClickShareScreen (Inr 1)])) = IDLE \<and>
   error (step (ClickSessionButton env_mic_denied) (run initial [ClickShareScreen (Inr 1)])) =
     Some ''Permission denied'' \<and>
   frameIntervalRef (step (ClickSessionButton env_mic_denied) (run initial [ClickShareScreen (Inr 1)])) = None"
proof -
  define s where "s = run initial [ClickShareScreen (Inr 1)]"
  have i: "status s = IDLE" and sh: "isScreenShared s" and fi: "frameIntervalRef s = None"
    and oc: "outputAudioContextRef s = None"
    by (simp_all add: s_def initial_def startScreenShare_def)
  have k: "API_KEY env_no_key = []" by (simp add: env_no_key_def)
  have f: "acquisition_fails env_mic_denied s"
    by (simp add: acquisition_fails_def env_mic_denied_def)
  have st: "step (ClickSessionButton e) s = result_state (startAISession_begin e s)" for e
    using i sh by simp
  from C9_failed_start_leaves_idle [OF i disjI1 [OF k]]
  have a: "status (result_state (startAISession_begin env_no_key s)) = IDLE" by auto
  from C9_failed_start_leaves_idle [OF i disjI2 [OF f]]
  have b: "status (result_state (startAISession_begin env_mic_denied s)) = IDLE \<and>
     frameIntervalRef (result_state (startAISession_begin env_mic_denied s)) = frameIntervalRef s"
    by auto
  have c: "error (result_state (startAISession_begin env_no_key s)) =
     Some ''API Key is missing from the environment.''"
    by (simp add: begin_missing_key [OF k])
  have d: "error (result_state (startAISession_begin env_mic_denied s)) = Some ''Permission denied''"
    using oc by (simp add: start_defs env_mic_denied_def)
  from a b c d i k f fi show ?thesis
    unfolding s_def [symmetric] st by simp
qed

end
